theory Spec2Isabelle
  imports Main "HOL-Library.Multiset"
begin

section \<open>Status values\<close>

text \<open>
  Modelled from the spec: util/status.h is not under src/. A Status is a code, a message
  and a POSIX error number (-1 when none was given). Only the codes the reactor builds or
  tests are named; every other code is \<open>kOtherCode n\<close>. The two-message constructor
  joins its messages with a colon and a blank when the second one is not empty, and
  \<open>CloneAndPrepend\<close> keeps the code and the POSIX number and puts a prefix before the
  message in that way.
\<close>

datatype Code = kOk | kNetworkError | kIllegalState | kServiceUnavailable | kOtherCode nat

record Status =
  code :: Code
  message :: string
  posix_code :: int

definition join_msg :: "string \<Rightarrow> string \<Rightarrow> string" where
  "join_msg msg msg2 = (if msg2 = [] then msg else msg @ '': '' @ msg2)"

definition Status_OK :: Status where
  "Status_OK = \<lparr>code = kOk, message = [], posix_code = - 1\<rparr>"

definition ok :: "Status \<Rightarrow> bool" where
  "ok s = (code s = kOk)"

definition IsIllegalState :: "Status \<Rightarrow> bool" where
  "IsIllegalState s = (code s = kIllegalState)"

definition ServiceUnavailable :: "string \<Rightarrow> string \<Rightarrow> int \<Rightarrow> Status" where
  "ServiceUnavailable msg msg2 posix =
     \<lparr>code = kServiceUnavailable, message = join_msg msg msg2, posix_code = posix\<rparr>"

definition NetworkError :: "string \<Rightarrow> Status" where
  "NetworkError msg = \<lparr>code = kNetworkError, message = msg, posix_code = - 1\<rparr>"

definition CloneAndPrepend :: "Status \<Rightarrow> string \<Rightarrow> Status" where
  "CloneAndPrepend s msg =
     \<lparr>code = code s, message = join_msg msg (message s), posix_code = posix_code s\<rparr>"

text \<open>The errno values of Linux, which the reactor names but does not define.\<close>

definition ESHUTDOWN :: int where
  "ESHUTDOWN = 108"

definition EINPROGRESS :: int where
  "EINPROGRESS = 115"

text \<open>reactor.cc, the anonymous namespace: the status every shutdown path hands out.\<close>

definition ShutdownError :: Status where
  "ShutdownError = ServiceUnavailable ''reactor is shutting down'' [] ESHUTDOWN"

section \<open>Connections and the state of the loop thread\<close>

text \<open>
  Modelled from the spec: rpc/connection.h, rpc/outbound_call.h, util/monotime.h and
  util/net/sockaddr.h are not under src/. Instants and durations are nanosecond counts;
  \<open>MonoTime_Max\<close> is the largest instant a signed 64-bit counter holds. A remote address
  is an opaque number. A Connection keeps the members the reactor reads or writes: its
  direction, the three parts of its ConnectionId, what \<open>Idle()\<close> and
  \<open>last_activity_time()\<close> report, the status of the last \<open>Shutdown\<close> it received, and its
  queue of outbound calls.
\<close>

type_synonym MonoTime = int
type_synonym MonoDelta = int
type_synonym Sockaddr = nat

definition MonoTime_Max :: MonoTime where
  "MonoTime_Max = 2 ^ 63 - 1"

definition FromMilliseconds :: "int \<Rightarrow> MonoDelta" where
  "FromMilliseconds ms = ms * 1000000"

datatype Direction = CLIENT | SERVER

record ConnectionId =
  remote :: Sockaddr
  service_name :: string
  user_credentials :: string

record OutboundCall =
  call_seq :: nat
  conn_id :: ConnectionId
  timeout :: MonoDelta

record Connection =
  direction :: Direction
  conn_remote :: Sockaddr
  conn_service_name :: string
  conn_user_credentials :: string
  Idle :: bool
  last_activity_time :: MonoTime
  shutdown_status :: "Status option"
  outbound_calls :: "OutboundCall list"

definition Connection_Shutdown :: "Status \<Rightarrow> Connection \<Rightarrow> Connection" where
  "Connection_Shutdown s c = c\<lparr>shutdown_status := Some s\<rparr>"

definition Connection_QueueOutboundCall :: "OutboundCall \<Rightarrow> Connection \<Rightarrow> Connection" where
  "Connection_QueueOutboundCall call c = c\<lparr>outbound_calls := outbound_calls c @ [call]\<rparr>"

definition new_Connection :: "Sockaddr \<Rightarrow> Direction \<Rightarrow> MonoTime \<Rightarrow> Connection" where
  "new_Connection r d now =
     \<lparr>direction = d, conn_remote = r, conn_service_name = [], conn_user_credentials = [],
      Idle = True, last_activity_time = now, shutdown_status = None, outbound_calls = []\<rparr>"

text \<open>
  Connections live in a store and are named by their address (\<open>shared_ptr\<close> and the raw
  pointer of DestroyConnection alike), so that two table entries can name one object.
  \<open>conn_map_t\<close> is a map with unique keys: \<open>insert\<close> leaves an existing key alone,
  \<open>erase\<close> removes the key.
\<close>

type_synonym conn_ptr = nat
type_synonym conn_map_t = "(ConnectionId \<times> conn_ptr) list"
type_synonym conn_list_t = "conn_ptr list"

definition conn_map_find :: "conn_map_t \<Rightarrow> ConnectionId \<Rightarrow> conn_ptr option" where
  "conn_map_find m k = map_of m k"

definition conn_map_insert :: "ConnectionId \<Rightarrow> conn_ptr \<Rightarrow> conn_map_t \<Rightarrow> conn_map_t" where
  "conn_map_insert k v m = (if map_of m k = None then m @ [(k, v)] else m)"

definition conn_map_erase :: "ConnectionId \<Rightarrow> conn_map_t \<Rightarrow> conn_map_t" where
  "conn_map_erase k m = filter (\<lambda>e. fst e \<noteq> k) m"

datatype NegotiationTask =
  ServerNegotiationTask conn_ptr MonoTime
| ClientNegotiationTask conn_ptr MonoTime

datatype LogEntry =
  WarnNoTimeout OutboundCall
| WarnSocketCreate Status
| WarnConnectFailed Status
| ErrorNegotiationFailed Status

record ReactorThread =
  client_conns :: conn_map_t
  server_conns :: conn_list_t
  cur_time :: MonoTime
  connection_keepalive_time :: MonoDelta
  heap :: "conn_ptr \<Rightarrow> Connection"
  next_conn :: conn_ptr
  failed_calls :: "(OutboundCall \<times> Status) list"
  submitted :: "NegotiationTask list"
  socket_inits :: nat
  log_lines :: "LogEntry list"

text \<open>
  What the world outside the reactor answers during one operation: the fine clock, the
  coarse clock a new Connection stamps itself with, the
  socket calls, the negotiation executor's \<open>SubmitFutureTask\<close>, the predicate
  \<open>Socket::IsTemporarySocketError\<close> and the flag \<open>server_negotiation_timeout\<close>.
\<close>

record Env =
  now_fine :: MonoTime
  socket_init :: Status
  socket_set_no_delay :: Status
  socket_connect :: Status
  submit_future_task :: Status
  now_coarse :: MonoTime
  IsTemporarySocketError :: "int \<Rightarrow> bool"
  FLAGS_server_negotiation_timeout :: int

datatype Fatal = CheckFailed string

definition conn_Shutdown :: "conn_ptr \<Rightarrow> Status \<Rightarrow> ReactorThread \<Rightarrow> ReactorThread" where
  "conn_Shutdown conn s t = t\<lparr>heap := (heap t)(conn := Connection_Shutdown s (heap t conn))\<rparr>"

subsection \<open>DestroyConnection (reactor.cc 391-413)\<close>

text \<open>The scan of \<open>server_conns\<close>: erase the first element that is this pointer, and stop.\<close>

fun unlink_server :: "conn_ptr \<Rightarrow> conn_list_t \<Rightarrow> conn_list_t" where
  "unlink_server conn [] = []"
| "unlink_server conn (c # cs) = (if c = conn then cs else c # unlink_server conn cs)"

definition DestroyConnection :: "conn_ptr \<Rightarrow> Status \<Rightarrow> ReactorThread \<Rightarrow> Fatal + ReactorThread" where
  "DestroyConnection conn conn_status t =
     (let t1 = conn_Shutdown conn conn_status t;
          c = heap t1 conn
      in if direction c = CLIENT then
           (let cid = \<lparr>remote = conn_remote c, service_name = conn_service_name c,
                       user_credentials = conn_user_credentials c\<rparr>
            in case conn_map_find (client_conns t1) cid of
                 None \<Rightarrow> Inl (CheckFailed ''Couldn't find connection'')
               | Some found \<Rightarrow> Inr (t1\<lparr>client_conns := conn_map_erase cid (client_conns t1)\<rparr>))
         else if direction c = SERVER then
           Inr (t1\<lparr>server_conns := unlink_server conn (server_conns t1)\<rparr>)
         else Inr t1)"

subsection \<open>StartConnectionNegotiation (reactor.cc 312-330)\<close>

definition StartConnectionNegotiation ::
    "Env \<Rightarrow> conn_ptr \<Rightarrow> MonoTime \<Rightarrow> ReactorThread \<Rightarrow> Status \<times> ReactorThread" where
  "StartConnectionNegotiation env conn deadline t =
     (if direction (heap t conn) = SERVER then
        (let t1 = t\<lparr>submitted := submitted t @ [ServerNegotiationTask conn deadline]\<rparr>
         in if \<not> ok (submit_future_task env) then (submit_future_task env, t1)
            else (Status_OK, t1))
      else
        (let t1 = t\<lparr>submitted := submitted t @ [ClientNegotiationTask conn deadline]\<rparr>
         in if \<not> ok (submit_future_task env) then (submit_future_task env, t1)
            else (Status_OK, t1)))"

subsection \<open>RegisterConnection (reactor.cc 145-158)\<close>

definition RegisterConnection :: "Env \<Rightarrow> conn_ptr \<Rightarrow> ReactorThread \<Rightarrow> Fatal + ReactorThread" where
  "RegisterConnection env conn t =
     (let deadline = now_fine env + FromMilliseconds (FLAGS_server_negotiation_timeout env);
          (s, t1) = StartConnectionNegotiation env conn deadline t
      in if \<not> ok s then
           (case DestroyConnection conn s
                   (t1\<lparr>log_lines := log_lines t1 @ [ErrorNegotiationFailed s]\<rparr>) of
              Inl f \<Rightarrow> Inl f
            | Inr t2 \<Rightarrow> Inr (t2\<lparr>server_conns := server_conns t2 @ [conn]\<rparr>))
         else Inr (t1\<lparr>server_conns := server_conns t1 @ [conn]\<rparr>))"

subsection \<open>CreateClientSocket and StartConnect (reactor.cc 359-389)\<close>

definition CreateClientSocket :: "Env \<Rightarrow> ReactorThread \<Rightarrow> Status \<times> ReactorThread" where
  "CreateClientSocket env t =
     (let t1 = t\<lparr>socket_inits := Suc (socket_inits t)\<rparr>;
          ret0 = socket_init env;
          ret = (if ok ret0 then socket_set_no_delay env else ret0)
      in (ret, if \<not> ok ret then t1\<lparr>log_lines := log_lines t1 @ [WarnSocketCreate ret]\<rparr> else t1))"

text \<open>The second component is \<open>*in_progress\<close>; it is not written on the error return.\<close>

definition StartConnect :: "Env \<Rightarrow> Sockaddr \<Rightarrow> ReactorThread \<Rightarrow> Status \<times> bool option \<times> ReactorThread" where
  "StartConnect env addr t =
     (let ret = socket_connect env
      in if ok ret then (ret, Some False, t)
         else if IsTemporarySocketError env (posix_code ret) \<or> posix_code ret = EINPROGRESS
         then (Status_OK, Some True, t)
         else (ret, None, t\<lparr>log_lines := log_lines t @ [WarnConnectFailed ret]\<rparr>))"

subsection \<open>FindOrStartConnection (reactor.cc 272-310)\<close>

text \<open>Lines 293-295: the new CLIENT Connection with the service name and credentials set.\<close>

definition new_client :: "Env \<Rightarrow> ConnectionId \<Rightarrow> Connection" where
  "new_client env cid =
     (new_Connection (remote cid) CLIENT (now_coarse env))
       \<lparr>conn_service_name := service_name cid, conn_user_credentials := user_credentials cid\<rparr>"

text \<open>
  The second component is the out-parameter \<open>*conn\<close>, \<open>None\<close> while it has not been
  written. The new Connection is allocated at \<open>next_conn\<close>.
\<close>

definition FindOrStartConnection ::
    "Env \<Rightarrow> ConnectionId \<Rightarrow> MonoTime \<Rightarrow> ReactorThread \<Rightarrow> Status \<times> conn_ptr option \<times> ReactorThread" where
  "FindOrStartConnection env cid deadline t =
     (case conn_map_find (client_conns t) cid of
        Some c \<Rightarrow> (Status_OK, Some c, t)
      | None \<Rightarrow>
          (let (s1, t1) = CreateClientSocket env t
           in if \<not> ok s1 then (s1, None, t1)
              else
                (let (s2, in_progress, t2) = StartConnect env (remote cid) t1
                 in if \<not> ok s2 then (s2, None, t2)
                    else
                      (let conn = next_conn t2;
                           c = new_client env cid;
                           t3 = t2\<lparr>heap := (heap t2)(conn := c), next_conn := Suc conn\<rparr>;
                           (s, t4) = StartConnectionNegotiation env conn deadline t3
                       in if IsIllegalState s then
                            (ServiceUnavailable ''Client RPC Messenger shutting down'' [] (- 1),
                             Some conn, t4)
                          else if \<not> ok s then
                            (CloneAndPrepend s ''Unable to start connection negotiation thread'',
                             Some conn, t4)
                          else
                            (Status_OK, Some conn,
                             t4\<lparr>client_conns := conn_map_insert cid conn (client_conns t4)\<rparr>)))))"

subsection \<open>AssignOutboundCall (reactor.cc 160-184)\<close>

text \<open>
  Lines 165-175: the deadline, and the state with the warning logged when there is none.
\<close>

definition AssignOutboundCall_deadline ::
    "Env \<Rightarrow> OutboundCall \<Rightarrow> ReactorThread \<Rightarrow> MonoTime \<times> ReactorThread" where
  "AssignOutboundCall_deadline env call t =
     (if timeout call = 0 then
        (MonoTime_Max, t\<lparr>log_lines := log_lines t @ [WarnNoTimeout call]\<rparr>)
      else (now_fine env + timeout call, t))"

text \<open>
  \<open>conn\<close> is still empty after a successful FindOrStartConnection in no run of the code
  (lemma \<open>FindOrStartConnection_ok_conn\<close>); that branch leaves the state alone.
\<close>

definition AssignOutboundCall :: "Env \<Rightarrow> OutboundCall \<Rightarrow> ReactorThread \<Rightarrow> ReactorThread" where
  "AssignOutboundCall env call t =
     (let (deadline, t0) = AssignOutboundCall_deadline env call t;
          (s, conn, t1) = FindOrStartConnection env (conn_id call) deadline t0
      in if \<not> ok s then t1\<lparr>failed_calls := failed_calls t1 @ [(call, s)]\<rparr>
         else (case conn of
                 None \<Rightarrow> t1
               | Some c \<Rightarrow> t1\<lparr>heap := (heap t1)(c := Connection_QueueOutboundCall call (heap t1 c))\<rparr>))"

text \<open>How many entries of the client table carry a key.\<close>

definition num_entries :: "ConnectionId \<Rightarrow> conn_map_t \<Rightarrow> nat" where
  "num_entries cid m = length (filter (\<lambda>e. fst e = cid) m)"

subsection \<open>ScanIdleConnections (reactor.cc 211-243)\<close>

text \<open>
  The walk over \<open>server_conns\<close>: the first component is what stays in the list, the last one
  the counter \<open>timed_out\<close>. \<open>ToString\<close> is \<open>MonoDelta::ToString\<close>, which is not under src/.
\<close>

definition timed_out_status :: "(MonoDelta \<Rightarrow> string) \<Rightarrow> MonoDelta \<Rightarrow> Status" where
  "timed_out_status ToString keepalive =
     NetworkError (''connection timed out after '' @ ToString keepalive @ '' seconds'')"

fun scan_loop ::
    "(MonoDelta \<Rightarrow> string) \<Rightarrow> conn_list_t \<Rightarrow> ReactorThread \<Rightarrow> nat \<Rightarrow> conn_list_t \<times> ReactorThread \<times> nat" where
  "scan_loop ToString [] t n = ([], t, n)"
| "scan_loop ToString (c # cs) t n =
     (if \<not> Idle (heap t c) then
        (let (kept, t', n') = scan_loop ToString cs t n in (c # kept, t', n'))
      else
        (let connection_delta = cur_time t - last_activity_time (heap t c)
         in if connection_delta > connection_keepalive_time t then
              scan_loop ToString cs
                (conn_Shutdown c (timed_out_status ToString (connection_keepalive_time t)) t) (n + 1)
            else (let (kept, t', n') = scan_loop ToString cs t n in (c # kept, t', n'))))"

definition ScanIdleConnections :: "(MonoDelta \<Rightarrow> string) \<Rightarrow> ReactorThread \<Rightarrow> ReactorThread" where
  "ScanIdleConnections ToString t =
     (let (kept, t', n) = scan_loop ToString (server_conns t) t 0 in t'\<lparr>server_conns := kept\<rparr>)"

text \<open>What the scan decides for one connection, read off the state before the scan.\<close>

definition timed_out :: "ReactorThread \<Rightarrow> conn_ptr \<Rightarrow> bool" where
  "timed_out t c =
     (Idle (heap t c) \<and> cur_time t - last_activity_time (heap t c) > connection_keepalive_time t)"

text \<open>The store the scan leaves behind, written without the loop.\<close>

definition scan_heap ::
    "(MonoDelta \<Rightarrow> string) \<Rightarrow> conn_list_t \<Rightarrow> ReactorThread \<Rightarrow> conn_ptr \<Rightarrow> Connection" where
  "scan_heap ToString cs u p =
     (if p \<in> set cs \<and> timed_out u p
      then Connection_Shutdown (timed_out_status ToString (connection_keepalive_time u)) (heap u p)
      else heap u p)"

subsection \<open>ShutdownInternal (reactor.cc 85-105)\<close>

fun shutdown_clients :: "conn_map_t \<Rightarrow> ReactorThread \<Rightarrow> ReactorThread" where
  "shutdown_clients [] t = t\<lparr>client_conns := []\<rparr>"
| "shutdown_clients (e # rest) t =
     shutdown_clients rest ((conn_Shutdown (snd e) ShutdownError t)\<lparr>client_conns := rest\<rparr>)"

definition ShutdownInternal :: "ReactorThread \<Rightarrow> ReactorThread" where
  "ShutdownInternal t =
     (let t1 = shutdown_clients (client_conns t) t;
          t2 = foldl (\<lambda>u c. conn_Shutdown c ShutdownError u) t1 (server_conns t1)
      in t2\<lparr>server_conns := []\<rparr>)"

definition ReactorThread_init :: "MonoDelta \<Rightarrow> MonoTime \<Rightarrow> ReactorThread" where
  "ReactorThread_init keepalive now =
     \<lparr>client_conns = [], server_conns = [], cur_time = now,
      connection_keepalive_time = keepalive,
      heap = (\<lambda>p. new_Connection 0 SERVER now), next_conn = 0, failed_calls = [],
      submitted = [], socket_inits = 0, log_lines = []\<rparr>"

section \<open>The Reactor: closing flag and pending queue\<close>

text \<open>
  A ReactorTask is an open class; the reactor only ever invokes \<open>Run\<close> or \<open>Abort\<close> on it.
  Tasks are therefore opaque values and every invocation is recorded in \<open>calls\<close>, in the
  order it happens; what the \<open>Run\<close> of a RegisterConnectionTask or an AssignOutboundCallTask
  does to the loop thread's tables is RegisterConnection and AssignOutboundCall above, and
  is not replayed here. \<open>async_pending\<close> is the state of the \<open>ev::async\<close> watcher: \<open>send\<close>
  sets it, and the event loop clears it when it invokes AsyncHandler.
\<close>

datatype 'task TaskCall = Run 'task | Abort 'task Status

fun task_of :: "'task TaskCall \<Rightarrow> 'task" where
  "task_of (Run x) = x"
| "task_of (Abort x s) = x"

record 'task Reactor =
  closing :: bool
  pending_tasks :: "'task list"
  async_pending :: bool
  calls :: "'task TaskCall list"
  loop_broken :: bool
  loop_thread :: ReactorThread

definition Reactor_init :: "MonoDelta \<Rightarrow> MonoTime \<Rightarrow> 'task Reactor" where
  "Reactor_init keepalive now =
     \<lparr>closing = False, pending_tasks = [], async_pending = False, calls = [],
      loop_broken = False, loop_thread = ReactorThread_init keepalive now\<rparr>"

definition WakeThread :: "'task Reactor \<Rightarrow> 'task Reactor" where
  "WakeThread r = r\<lparr>async_pending := True\<rparr>"

text \<open>ReactorThread::Shutdown (reactor.cc 78-83), with its CHECK.\<close>

definition ReactorThread_Shutdown :: "'task Reactor \<Rightarrow> Fatal + 'task Reactor" where
  "ReactorThread_Shutdown r =
     (if closing r then Inr (WakeThread r)
      else Inl (CheckFailed ''Should be called after setting closing_ flag''))"

text \<open>Reactor::ScheduleReactorTask (reactor.cc 554-566).\<close>

definition ScheduleReactorTask :: "'task \<Rightarrow> 'task Reactor \<Rightarrow> 'task Reactor" where
  "ScheduleReactorTask task r =
     (if closing r then r\<lparr>calls := calls r @ [Abort task ShutdownError]\<rparr>
      else WakeThread (r\<lparr>pending_tasks := pending_tasks r @ [task]\<rparr>))"

text \<open>
  Reactor::DrainTaskQueue (reactor.cc 568-575): the result, the caller's list after the
  call and the reactor after the call.
\<close>

definition DrainTaskQueue :: "'task list \<Rightarrow> 'task Reactor \<Rightarrow> bool \<times> 'task list \<times> 'task Reactor" where
  "DrainTaskQueue tasks r =
     (if closing r then (False, tasks, r)
      else (True, pending_tasks r, r\<lparr>pending_tasks := tasks\<rparr>))"

text \<open>Reactor::Shutdown (reactor.cc 428-446): one turn of its loop, the loop, the function.\<close>

definition abort_front :: "'task Reactor \<Rightarrow> 'task Reactor" where
  "abort_front r =
     (case pending_tasks r of
        [] \<Rightarrow> r
      | task # rest \<Rightarrow> r\<lparr>pending_tasks := rest, calls := calls r @ [Abort task ShutdownError]\<rparr>)"

function abort_pending :: "'task Reactor \<Rightarrow> 'task Reactor" where
  "abort_pending r = (if pending_tasks r = [] then r else abort_pending (abort_front r))"
  by pat_completeness auto
termination
  by (relation "measure (\<lambda>r. length (pending_tasks r))")
     (auto simp: abort_front_def split: list.splits)

declare abort_pending.simps [simp del]

definition Reactor_Shutdown :: "'task Reactor \<Rightarrow> Fatal + 'task Reactor" where
  "Reactor_Shutdown r =
     (if closing r then Inr r
      else (case ReactorThread_Shutdown (r\<lparr>closing := True\<rparr>) of
              Inl f \<Rightarrow> Inl f
            | Inr r1 \<Rightarrow> Inr (abort_pending r1)))"

text \<open>ReactorThread::AsyncHandler (reactor.cc 126-143), run on its own from start to end.\<close>

fun run_tasks :: "'task list \<Rightarrow> 'task Reactor \<Rightarrow> 'task Reactor" where
  "run_tasks [] r = r"
| "run_tasks (task # rest) r = run_tasks rest (r\<lparr>calls := calls r @ [Run task]\<rparr>)"

definition AsyncHandler :: "'task Reactor \<Rightarrow> 'task Reactor" where
  "AsyncHandler r =
     (if closing r then
        r\<lparr>loop_thread := ShutdownInternal (loop_thread r), loop_broken := True\<rparr>
      else (let (drained, tasks, r1) = DrainTaskQueue [] r in run_tasks tasks r1))"

section \<open>Threads: the loop and its callers, step by step\<close>

text \<open>
  Foreign threads and the loop thread run side by side, and the Reactor's lock makes each
  locked region one step. A world is the Reactor together with where each thread stands:
  \<^item> the loop thread is waiting in the event loop, is inside AsyncHandler between its test
    of \<open>closing()\<close> and its call of DrainTaskQueue, is inside AsyncHandler's loop over its
    local list \<open>tasks\<close>, or has left the event loop;
  \<^item> the one caller of Shutdown that found \<open>closing\<close> unset has still to wake the loop, is
    in the loop that empties \<open>pending_tasks\<close> (which takes no lock), or has returned;
  \<^item> ScheduleReactorTask is one step: after its locked region it only calls Abort on
    its own task or sets the notifier.
  \<open>scheduled\<close> lists the tasks handed to ScheduleReactorTask so far; a task object is
  handed over once. A step that the code cannot take in a world yields \<open>None\<close>.
\<close>

datatype LoopPC = LoopWaiting | LoopDraining | LoopRunning | LoopExited

datatype ShutdownPC = ShutdownNotCalled | ShutdownWaking | ShutdownAborting | ShutdownReturned

record 'task World =
  reactor :: "'task Reactor"
  loop_pc :: LoopPC
  tasks :: "'task list"
  shutdown_pc :: ShutdownPC
  scheduled :: "'task list"

datatype 'task Action =
  Schedule 'task
| LoopWake
| LoopDrain
| LoopRun
| LoopDone
| CallShutdown
| ShutdownWake
| ShutdownAbort
| ShutdownReturn

definition World_init :: "MonoDelta \<Rightarrow> MonoTime \<Rightarrow> 'task World" where
  "World_init keepalive now =
     \<lparr>reactor = Reactor_init keepalive now, loop_pc = LoopWaiting, tasks = [],
      shutdown_pc = ShutdownNotCalled, scheduled = []\<rparr>"

fun step :: "'task Action \<Rightarrow> 'task World \<Rightarrow> 'task World option" where
  "step (Schedule task) w =
     (if task \<in> set (scheduled w) then None
      else Some (w\<lparr>reactor := ScheduleReactorTask task (reactor w),
                   scheduled := scheduled w @ [task]\<rparr>))"
| "step LoopWake w =
     (if loop_pc w = LoopWaiting \<and> async_pending (reactor w) then
        (let r = (reactor w)\<lparr>async_pending := False\<rparr>
         in if closing r then
              Some (w\<lparr>reactor := r\<lparr>loop_thread := ShutdownInternal (loop_thread r),
                                    loop_broken := True\<rparr>,
                      loop_pc := LoopExited\<rparr>)
            else Some (w\<lparr>reactor := r, loop_pc := LoopDraining\<rparr>))
      else None)"
| "step LoopDrain w =
     (if loop_pc w = LoopDraining then
        (let (drained, ts, r) = DrainTaskQueue (tasks w) (reactor w)
         in Some (w\<lparr>reactor := r, tasks := ts, loop_pc := LoopRunning\<rparr>))
      else None)"
| "step LoopRun w =
     (if loop_pc w = LoopRunning then
        (case tasks w of
           [] \<Rightarrow> None
         | task # rest \<Rightarrow>
             Some (w\<lparr>reactor := (reactor w)\<lparr>calls := calls (reactor w) @ [Run task]\<rparr>,
                     tasks := rest\<rparr>))
      else None)"
| "step LoopDone w =
     (if loop_pc w = LoopRunning \<and> tasks w = [] then Some (w\<lparr>loop_pc := LoopWaiting\<rparr>)
      else None)"
| "step CallShutdown w =
     (if closing (reactor w) then Some w
      else Some (w\<lparr>reactor := (reactor w)\<lparr>closing := True\<rparr>, shutdown_pc := ShutdownWaking\<rparr>))"
| "step ShutdownWake w =
     (if shutdown_pc w = ShutdownWaking then
        (case ReactorThread_Shutdown (reactor w) of
           Inl f \<Rightarrow> None
         | Inr r \<Rightarrow> Some (w\<lparr>reactor := r, shutdown_pc := ShutdownAborting\<rparr>))
      else None)"
| "step ShutdownAbort w =
     (if shutdown_pc w = ShutdownAborting \<and> pending_tasks (reactor w) \<noteq> [] then
        Some (w\<lparr>reactor := abort_front (reactor w)\<rparr>)
      else None)"
| "step ShutdownReturn w =
     (if shutdown_pc w = ShutdownAborting \<and> pending_tasks (reactor w) = [] then
        Some (w\<lparr>shutdown_pc := ShutdownReturned\<rparr>)
      else None)"

fun steps :: "'task Action list \<Rightarrow> 'task World \<Rightarrow> 'task World option" where
  "steps [] w = Some w"
| "steps (a # as) w = (case step a w of None \<Rightarrow> None | Some w' \<Rightarrow> steps as w')"

text \<open>How often a task was run, and how often it was aborted, in a list of invocations.\<close>

fun is_Abort_of :: "'task \<Rightarrow> 'task TaskCall \<Rightarrow> bool" where
  "is_Abort_of x (Abort y s) = (x = y)"
| "is_Abort_of x (Run y) = False"

definition runs_of :: "'task \<Rightarrow> 'task TaskCall list \<Rightarrow> nat" where
  "runs_of x cs = length (filter (\<lambda>c. c = Run x) cs)"

definition aborts_of :: "'task \<Rightarrow> 'task TaskCall list \<Rightarrow> nat" where
  "aborts_of x cs = length (filter (is_Abort_of x) cs)"

text \<open>
  What ties the queue, the loop's list and the invocations together in every world the
  threads can reach: a task handed over is in exactly one of them, \<open>closing\<close> is set from
  the first Shutdown on, \<open>pending_tasks\<close> is empty once that Shutdown has returned, and the
  loop's list is empty outside AsyncHandler's loop.
\<close>

definition World_inv :: "'task World \<Rightarrow> bool" where
  "World_inv w =
     (distinct (scheduled w)
      \<and> mset (scheduled w) =
          mset (pending_tasks (reactor w)) + mset (tasks w)
            + mset (map task_of (calls (reactor w)))
      \<and> (closing (reactor w) = (shutdown_pc w \<noteq> ShutdownNotCalled))
      \<and> (shutdown_pc w = ShutdownReturned \<longrightarrow> pending_tasks (reactor w) = [])
      \<and> (loop_pc w \<noteq> LoopRunning \<longrightarrow> tasks w = []))"

text \<open>
  One way to bring a world to rest without handing over another task: the caller of
  Shutdown (a first one, if there was none) goes on to its return, then the loop thread
  finishes the AsyncHandler it is in.
\<close>

definition finish_shutdown :: "'task World \<Rightarrow> 'task Action list" where
  "finish_shutdown w =
     (case shutdown_pc w of
        ShutdownNotCalled \<Rightarrow>
          [CallShutdown, ShutdownWake]
            @ replicate (length (pending_tasks (reactor w))) ShutdownAbort @ [ShutdownReturn]
      | ShutdownWaking \<Rightarrow>
          [ShutdownWake]
            @ replicate (length (pending_tasks (reactor w))) ShutdownAbort @ [ShutdownReturn]
      | ShutdownAborting \<Rightarrow>
          replicate (length (pending_tasks (reactor w))) ShutdownAbort @ [ShutdownReturn]
      | ShutdownReturned \<Rightarrow> [])"

definition finish_loop :: "'task World \<Rightarrow> 'task Action list" where
  "finish_loop w =
     (case loop_pc w of
        LoopDraining \<Rightarrow> [LoopDrain]
      | LoopRunning \<Rightarrow> replicate (length (tasks w)) LoopRun
      | LoopWaiting \<Rightarrow> []
      | LoopExited \<Rightarrow> [])"

definition finish :: "'task World \<Rightarrow> 'task Action list" where
  "finish w = finish_shutdown w @ finish_loop w"

section \<open>Example inputs\<close>

text \<open>
  A loop thread with keepalive 10 at time 0 whose store holds a SERVER connection at
  address 0 and a CLIENT connection to remote 7 at address 5, neither in a table; the
  outside world when every call succeeds, when the executor refuses the submission with
  a network error, and when it is shutting down; a ConnectionId and two calls to it.
\<close>

definition ex_thread :: ReactorThread where
  "ex_thread =
     (ReactorThread_init 10 0)
       \<lparr>heap := (\<lambda>p. new_Connection 0 SERVER 0)(5 := new_Connection 7 CLIENT 0), next_conn := 6\<rparr>"

definition ex_env :: Env where
  "ex_env =
     \<lparr>now_fine = 100, socket_init = Status_OK, socket_set_no_delay = Status_OK,
      socket_connect = Status_OK, submit_future_task = Status_OK, now_coarse = 90,
      IsTemporarySocketError = (\<lambda>e. e = 11 \<or> e = 4),
      FLAGS_server_negotiation_timeout = 3000\<rparr>"

definition ex_env_refused :: Env where
  "ex_env_refused = ex_env\<lparr>submit_future_task := NetworkError ''executor refused''\<rparr>"

definition ex_env_closing :: Env where
  "ex_env_closing =
     ex_env\<lparr>submit_future_task :=
       \<lparr>code = kIllegalState, message = ''ThreadPool is closing'', posix_code = - 1\<rparr>\<rparr>"

definition ex_cid :: ConnectionId where
  "ex_cid = \<lparr>remote = 7, service_name = ''calc'', user_credentials = ''alice''\<rparr>"

definition ex_call :: OutboundCall where
  "ex_call = \<lparr>call_seq = 11, conn_id = ex_cid, timeout = 0\<rparr>"

definition ex_call2 :: OutboundCall where
  "ex_call2 = \<lparr>call_seq = 12, conn_id = ex_cid, timeout = 50\<rparr>"

text \<open>
  A loop thread at coarse time 100 with keepalive 10 and three server connections: the one
  at address 0 idle since 0, the one at 5 not idle, the one at 8 idle since 95; and what
  \<open>MonoDelta::ToString\<close> prints for the keepalive.
\<close>

definition ex_scan_thread :: ReactorThread where
  "ex_scan_thread =
     (ReactorThread_init 10 100)
       \<lparr>server_conns := [0, 5, 8],
        heap := (\<lambda>p. new_Connection 0 SERVER 0)
                  (5 := (new_Connection 3 SERVER 0)\<lparr>Idle := False\<rparr>,
                   8 := new_Connection 4 SERVER 95),
        client_conns := [(ex_cid, 9)]\<rparr>"

definition ex_ToString :: "MonoDelta \<Rightarrow> string" where
  "ex_ToString d = (if d = 10 then ''0.00000001'' else ''?'')"

text \<open>
  A Reactor with two pending tasks; a run of the threads in which tasks 21 and 22 are
  drained and run, 23 is pending when Shutdown is called and 24 is scheduled after that;
  and a run in which Shutdown is called and returns while the loop is between the two
  tasks it has drained.
\<close>

definition ex_reactor :: "nat Reactor" where
  "ex_reactor = (Reactor_init 10 0)\<lparr>pending_tasks := [21, 22], async_pending := False\<rparr>"

definition ex_run :: "nat Action list" where
  "ex_run =
     [Schedule 21, Schedule 22, LoopWake, LoopDrain, LoopRun, Schedule 23, CallShutdown,
      Schedule 24, ShutdownWake, ShutdownAbort, ShutdownReturn, LoopRun, LoopDone, LoopWake]"

definition ex_race :: "nat Action list" where
  "ex_race =
     [Schedule 21, Schedule 22, LoopWake, LoopDrain, LoopRun, CallShutdown, ShutdownWake,
      ShutdownReturn]"

section \<open>Properties of the loop thread\<close>

subsection \<open>Statuses and the small steps\<close>

lemma ok_Status_OK: "ok Status_OK"
  by (simp add: ok_def Status_OK_def)

lemma ok_CloneAndPrepend: "ok (CloneAndPrepend s m) = ok s"
  by (simp add: CloneAndPrepend_def ok_def)

lemma not_ok_ServiceUnavailable: "\<not> ok (ServiceUnavailable m m2 p)"
  by (simp add: ServiceUnavailable_def ok_def)

lemma unlink_server_absent: "conn \<notin> set cs \<Longrightarrow> unlink_server conn cs = cs"
  by (induction cs) auto

lemma CreateClientSocket_fst:
  "fst (CreateClientSocket env t) =
     (if ok (socket_init env) then socket_set_no_delay env else socket_init env)"
  by (simp add: CreateClientSocket_def Let_def)

lemma CreateClientSocket_snd:
  "snd (CreateClientSocket env t) =
     (if ok (fst (CreateClientSocket env t)) then t\<lparr>socket_inits := Suc (socket_inits t)\<rparr>
      else t\<lparr>socket_inits := Suc (socket_inits t),
             log_lines := log_lines t @ [WarnSocketCreate (fst (CreateClientSocket env t))]\<rparr>)"
  by (simp add: CreateClientSocket_def Let_def)

lemma StartConnect_fst:
  "fst (StartConnect env a t) =
     (if ok (socket_connect env) then socket_connect env
      else if IsTemporarySocketError env (posix_code (socket_connect env))
              \<or> posix_code (socket_connect env) = EINPROGRESS
      then Status_OK else socket_connect env)"
  by (simp add: StartConnect_def Let_def)

lemma StartConnect_fst_indep: "fst (StartConnect env a t) = fst (StartConnect env b u)"
  by (simp add: StartConnect_fst)

lemma StartConnect_snd:
  "snd (snd (StartConnect env a t)) =
     (if ok (fst (StartConnect env a t)) then t
      else t\<lparr>log_lines := log_lines t @ [WarnConnectFailed (fst (StartConnect env a t))]\<rparr>)"
  by (auto simp add: StartConnect_def Let_def ok_Status_OK)

lemma StartConnectionNegotiation_status:
  "fst (StartConnectionNegotiation env conn d t) =
     (if ok (submit_future_task env) then Status_OK else submit_future_task env)"
  by (simp add: StartConnectionNegotiation_def Let_def)

lemma StartConnectionNegotiation_snd:
  "snd (StartConnectionNegotiation env conn d t) =
     t\<lparr>submitted := submitted t @
         [if direction (heap t conn) = SERVER then ServerNegotiationTask conn d
          else ClientNegotiationTask conn d]\<rparr>"
  by (simp add: StartConnectionNegotiation_def Let_def)

subsection \<open>FindOrStartConnection, path by path\<close>

lemma FindOrStartConnection_found:
  "conn_map_find (client_conns t) cid = Some c \<Longrightarrow>
   FindOrStartConnection env cid d t = (Status_OK, Some c, t)"
  by (simp add: FindOrStartConnection_def)

lemma FindOrStartConnection_absent:
  assumes "conn_map_find (client_conns t) cid = None"
  shows "FindOrStartConnection env cid d t =
    (let s1 = fst (CreateClientSocket env t); t1 = snd (CreateClientSocket env t);
         s2 = fst (StartConnect env (remote cid) t1);
         t2 = snd (snd (StartConnect env (remote cid) t1));
         s3 = submit_future_task env;
         t4 = t2\<lparr>heap := (heap t2)(next_conn t := new_client env cid),
                 next_conn := Suc (next_conn t),
                 submitted := submitted t @ [ClientNegotiationTask (next_conn t) d]\<rparr>
     in if \<not> ok s1 then (s1, None, t1)
        else if \<not> ok s2 then (s2, None, t2)
        else if IsIllegalState s3 then
          (ServiceUnavailable ''Client RPC Messenger shutting down'' [] (- 1),
           Some (next_conn t), t4)
        else if \<not> ok s3 then
          (CloneAndPrepend s3 ''Unable to start connection negotiation thread'',
           Some (next_conn t), t4)
        else (Status_OK, Some (next_conn t),
              t4\<lparr>client_conns := client_conns t @ [(cid, next_conn t)]\<rparr>))"
  using assms
  apply (simp add: FindOrStartConnection_def Let_def split_beta CreateClientSocket_snd
      StartConnect_snd StartConnectionNegotiation_snd StartConnectionNegotiation_status
      new_client_def conn_map_insert_def conn_map_find_def new_Connection_def)
  apply (auto simp: IsIllegalState_def ok_def Status_OK_def)
  done

lemma FindOrStartConnection_cases:
  "(\<exists>c. conn_map_find (client_conns t) cid = Some c
        \<and> FindOrStartConnection env cid d t = (Status_OK, Some c, t))
   \<or> (conn_map_find (client_conns t) cid = None \<and>
       (\<exists>s p t'. FindOrStartConnection env cid d t = (s, p, t') \<and>
          failed_calls t' = failed_calls t \<and>
          (\<forall>q. q \<noteq> next_conn t \<longrightarrow> heap t' q = heap t q) \<and>
          (heap t' (next_conn t) = heap t (next_conn t)
           \<or> heap t' (next_conn t) = new_client env cid) \<and>
          (\<exists>more. log_lines t' = log_lines t @ more \<and> (\<forall>k. WarnNoTimeout k \<notin> set more)) \<and>
          (if ok s then p = Some (next_conn t)
                        \<and> client_conns t' = client_conns t @ [(cid, next_conn t)]
           else client_conns t' = client_conns t)))"
proof (cases "conn_map_find (client_conns t) cid")
  case None
  show ?thesis
    apply (rule disjI2)
    apply (simp only: FindOrStartConnection_absent [OF None] Let_def)
    apply (auto simp: None CreateClientSocket_snd StartConnect_snd not_ok_ServiceUnavailable
        ok_CloneAndPrepend ok_Status_OK)
    done
next
  case (Some c)
  then show ?thesis by (simp add: FindOrStartConnection_found)
qed

lemmas status_defs = ok_def IsIllegalState_def Status_OK_def NetworkError_def
  ServiceUnavailable_def CloneAndPrepend_def join_msg_def ShutdownError_def ESHUTDOWN_def

lemma ex_thread_simps:
  "client_conns ex_thread = []" "server_conns ex_thread = []" "next_conn ex_thread = 6"
  "heap ex_thread 0 = new_Connection 0 SERVER 0" "heap ex_thread 5 = new_Connection 7 CLIENT 0"
  "failed_calls ex_thread = []" "socket_inits ex_thread = 0" "log_lines ex_thread = []"
  "cur_time ex_thread = 0" "connection_keepalive_time ex_thread = 10" "submitted ex_thread = []"
  by (simp_all add: ex_thread_def ReactorThread_init_def)

subsection \<open>DestroyConnection and RegisterConnection\<close>

text \<open>What RegisterConnection returns for a SERVER connection when the submission fails.\<close>

lemma RegisterConnection_failure:
  "direction (heap v d) = SERVER \<Longrightarrow> \<not> ok (submit_future_task env) \<Longrightarrow>
   RegisterConnection env d v =
     Inr ((conn_Shutdown d (submit_future_task env) v)
            \<lparr>submitted := submitted v @ [ServerNegotiationTask d
                 (now_fine env + FromMilliseconds (FLAGS_server_negotiation_timeout env))],
             log_lines := log_lines v @ [ErrorNegotiationFailed (submit_future_task env)],
             server_conns := unlink_server d (server_conns v) @ [d]\<rparr>)"
  by (simp add: RegisterConnection_def StartConnectionNegotiation_def Let_def
        DestroyConnection_def conn_Shutdown_def Connection_Shutdown_def)

text \<open>
  C10. DestroyConnection on a SERVER connection that is not in \<open>server_conns\<close> shuts the
  connection down with the given status and returns with \<open>server_conns\<close> as it was: the scan
  finds nothing and no check stands in its way. On a CLIENT connection whose ConnectionId,
  rebuilt from the connection, is not a key of \<open>client_conns\<close> the CHECK fails. The failure
  path of RegisterConnection calls DestroyConnection on a SERVER connection that is in no
  list yet, and comes back from it.
\<close>

theorem DestroyConnection_direction_asymmetry:
  "(direction (heap t conn) = SERVER \<and> conn \<notin> set (server_conns t) \<longrightarrow>
      DestroyConnection conn s t = Inr (conn_Shutdown conn s t)
      \<and> server_conns (conn_Shutdown conn s t) = server_conns t
      \<and> shutdown_status (heap (conn_Shutdown conn s t) conn) = Some s)
   \<and> (direction (heap u c) = CLIENT
       \<and> conn_map_find (client_conns u)
            \<lparr>remote = conn_remote (heap u c), service_name = conn_service_name (heap u c),
             user_credentials = conn_user_credentials (heap u c)\<rparr> = None \<longrightarrow>
      DestroyConnection c s u = Inl (CheckFailed ''Couldn't find connection''))
   \<and> (direction (heap v d) = SERVER \<and> d \<notin> set (server_conns v)
       \<and> \<not> ok (submit_future_task env) \<longrightarrow>
      (\<exists>v'. RegisterConnection env d v = Inr v'
            \<and> shutdown_status (heap v' d) = Some (submit_future_task env)))"
  by (simp add: DestroyConnection_def conn_Shutdown_def Connection_Shutdown_def Let_def
        unlink_server_absent RegisterConnection_def StartConnectionNegotiation_def)

text \<open>The three cases of C10 on the example thread.\<close>

theorem DestroyConnection_direction_asymmetry_witness:
  "direction (heap ex_thread 0) = SERVER \<and> 0 \<notin> set (server_conns ex_thread)
   \<and> direction (heap ex_thread 5) = CLIENT
   \<and> \<not> ok (submit_future_task ex_env_refused)
   \<and> DestroyConnection 0 ShutdownError ex_thread = Inr (conn_Shutdown 0 ShutdownError ex_thread)
   \<and> DestroyConnection 5 ShutdownError ex_thread = Inl (CheckFailed ''Couldn't find connection'')
   \<and> (\<exists>v'. RegisterConnection ex_env_refused 0 ex_thread = Inr v'
          \<and> shutdown_status (heap v' 0) = Some (submit_future_task ex_env_refused))"
  using DestroyConnection_direction_asymmetry
          [where t = ex_thread and conn = 0 and s = ShutdownError and u = ex_thread and c = 5
             and v = ex_thread and d = 0 and env = ex_env_refused]
  by (simp add: ex_thread_simps new_Connection_def conn_map_find_def ex_env_refused_def
        NetworkError_def ok_def)

text \<open>
  C3. RegisterConnection on the example thread when the executor refuses the submission:
  \<open>server_conns\<close> was empty, the connection at address 0 is shut down with the executor's
  error, and after the call it is the one element of \<open>server_conns\<close>. Line 157 is reached
  on the failure path as well, since the \<open>if\<close> of lines 153-156 does not return.
\<close>

theorem RegisterConnection_failure_still_appends:
  "\<not> ok (submit_future_task ex_env_refused)
   \<and> server_conns ex_thread = []
   \<and> map_sum id server_conns (RegisterConnection ex_env_refused 0 ex_thread) = Inr [0]
   \<and> map_sum id (\<lambda>t. shutdown_status (heap t 0)) (RegisterConnection ex_env_refused 0 ex_thread)
        = Inr (Some (NetworkError ''executor refused''))"
  by (simp add: ex_thread_simps new_Connection_def ex_env_refused_def ex_env_def
        NetworkError_def ok_def RegisterConnection_def StartConnectionNegotiation_def
        DestroyConnection_def conn_Shutdown_def Connection_Shutdown_def Let_def)

subsection \<open>FindOrStartConnection: errors and the client table\<close>

text \<open>
  C4, amended. For a ConnectionId that is not a key of \<open>client_conns\<close>: when
  CreateClientSocket fails, FindOrStartConnection returns its status; when StartConnect
  fails, it returns that status; when the submission of the negotiation fails, it returns
  an error made from the submission's status, not that status itself: the
  service-unavailable status "Client RPC Messenger shutting down" when the submission
  reported an illegal state, and otherwise the submission's status with the prefix
  "Unable to start connection negotiation thread" before its message; in
  all three cases \<open>client_conns\<close> is what it was. When all three succeed it returns OK and
  \<open>client_conns\<close> has gained exactly the new entry. So the table changes only when the
  result is OK. (What CreateClientSocket and StartConnect return does not depend on the
  state they are called in, so both are read off the state before the call.)
\<close>

theorem FindOrStartConnection_failure_atomic:
  "conn_map_find (client_conns t) cid = None \<Longrightarrow>
   (let s1 = fst (CreateClientSocket env t);
        s2 = fst (StartConnect env (remote cid) t);
        s3 = submit_future_task env;
        s = fst (FindOrStartConnection env cid deadline t);
        t' = snd (snd (FindOrStartConnection env cid deadline t))
    in (\<not> ok s1 \<longrightarrow> s = s1 \<and> client_conns t' = client_conns t)
     \<and> (ok s1 \<and> \<not> ok s2 \<longrightarrow> s = s2 \<and> client_conns t' = client_conns t)
     \<and> (ok s1 \<and> ok s2 \<and> \<not> ok s3 \<longrightarrow>
          \<not> ok s \<and> client_conns t' = client_conns t
          \<and> s = (if IsIllegalState s3
                 then ServiceUnavailable ''Client RPC Messenger shutting down'' [] (- 1)
                 else CloneAndPrepend s3 ''Unable to start connection negotiation thread''))
     \<and> (ok s1 \<and> ok s2 \<and> ok s3 \<longrightarrow>
          s = Status_OK \<and> client_conns t' = client_conns t @ [(cid, next_conn t)])
     \<and> (client_conns t' \<noteq> client_conns t \<longrightarrow> ok s))"
  apply (simp only: FindOrStartConnection_absent Let_def
      StartConnect_fst_indep [of env "remote cid" "snd (CreateClientSocket env t)" "remote cid" t])
  apply (auto simp: CreateClientSocket_snd StartConnect_snd IsIllegalState_def ok_def
      ServiceUnavailable_def CloneAndPrepend_def Status_OK_def)
  done

lemma ex_env_simps:
  "socket_init ex_env = Status_OK" "socket_set_no_delay ex_env = Status_OK"
  "socket_connect ex_env = Status_OK" "submit_future_task ex_env = Status_OK"
  "now_fine ex_env = 100" "now_coarse ex_env = 90"
  "socket_init ex_env_refused = Status_OK" "socket_set_no_delay ex_env_refused = Status_OK"
  "socket_connect ex_env_refused = Status_OK"
  "submit_future_task ex_env_refused = NetworkError ''executor refused''"
  "now_fine ex_env_refused = 100" "now_coarse ex_env_refused = 90"
  "socket_init ex_env_closing = Status_OK" "socket_set_no_delay ex_env_closing = Status_OK"
  "socket_connect ex_env_closing = Status_OK"
  "submit_future_task ex_env_closing =
     \<lparr>code = kIllegalState, message = ''ThreadPool is closing'', posix_code = - 1\<rparr>"
  "now_fine ex_env_closing = 100" "now_coarse ex_env_closing = 90"
  by (simp_all add: ex_env_def ex_env_refused_def ex_env_closing_def)

text \<open>C4 on the example thread: a refused submission, and the path where all succeeds.\<close>

theorem FindOrStartConnection_failure_atomic_witness:
  "conn_map_find (client_conns ex_thread) ex_cid = None
   \<and> \<not> ok (submit_future_task ex_env_refused)
   \<and> \<not> ok (fst (FindOrStartConnection ex_env_refused ex_cid 500 ex_thread))
   \<and> client_conns (snd (snd (FindOrStartConnection ex_env_refused ex_cid 500 ex_thread))) = []
   \<and> fst (FindOrStartConnection ex_env ex_cid 500 ex_thread) = Status_OK
   \<and> client_conns (snd (snd (FindOrStartConnection ex_env ex_cid 500 ex_thread))) = [(ex_cid, 6)]"
  using FindOrStartConnection_failure_atomic [of ex_thread ex_cid ex_env_refused 500]
    FindOrStartConnection_failure_atomic [of ex_thread ex_cid ex_env 500]
  by (simp add: Let_def ex_thread_simps ex_env_simps conn_map_find_def CreateClientSocket_fst
        StartConnect_fst status_defs)

text \<open>
  C4, as stated, fails where it says that the error of the failing step is the error
  returned: on the example thread, when the executor is closing, the submission of the
  negotiation returns an illegal state and FindOrStartConnection returns a
  service-unavailable status instead (lines 299-303); when the executor refuses with a
  network error, the status returned has that code but another message (line 305). In
  both runs \<open>client_conns\<close> stays empty.
\<close>

theorem FindOrStartConnection_error_not_returned_as_is:
  "conn_map_find (client_conns ex_thread) ex_cid = None
   \<and> code (fst (StartConnectionNegotiation ex_env_closing 6 500 ex_thread)) = kIllegalState
   \<and> code (fst (FindOrStartConnection ex_env_closing ex_cid 500 ex_thread)) = kServiceUnavailable
   \<and> fst (FindOrStartConnection ex_env_closing ex_cid 500 ex_thread)
        \<noteq> fst (StartConnectionNegotiation ex_env_closing 6 500 ex_thread)
   \<and> client_conns (snd (snd (FindOrStartConnection ex_env_closing ex_cid 500 ex_thread))) = []
   \<and> message (fst (StartConnectionNegotiation ex_env_refused 6 500 ex_thread)) = ''executor refused''
   \<and> message (fst (FindOrStartConnection ex_env_refused ex_cid 500 ex_thread)) =
        ''Unable to start connection negotiation thread: executor refused''
   \<and> fst (FindOrStartConnection ex_env_refused ex_cid 500 ex_thread)
        \<noteq> fst (StartConnectionNegotiation ex_env_refused 6 500 ex_thread)
   \<and> client_conns (snd (snd (FindOrStartConnection ex_env_refused ex_cid 500 ex_thread))) = []"
proof -
  have n: "conn_map_find (client_conns ex_thread) ex_cid = None"
    by (simp add: ex_thread_simps conn_map_find_def)
  show ?thesis
    by (simp add: FindOrStartConnection_absent [OF n] conn_map_find_def Let_def ex_thread_simps
          ex_env_simps CreateClientSocket_fst CreateClientSocket_snd StartConnect_fst StartConnect_snd
          StartConnectionNegotiation_status status_defs)
qed

text \<open>
  C5. On the path that reaches the negotiation, let \<open>s\<close> be what StartConnectionNegotiation
  returns (the same for every connection and deadline, see
  \<open>StartConnectionNegotiation_status\<close>). If \<open>s\<close> is an illegal state, the caller gets a
  service-unavailable status with the message "Client RPC Messenger shutting down". Any
  other error comes back with its code and POSIX number and with the prefix
  "Unable to start connection negotiation thread" before its message.
\<close>

theorem FindOrStartConnection_negotiation_error:
  "conn_map_find (client_conns t) cid = None \<Longrightarrow>
   ok (fst (CreateClientSocket env t)) \<Longrightarrow>
   ok (fst (StartConnect env (remote cid) t)) \<Longrightarrow>
   fst (StartConnectionNegotiation env conn deadline' u) = s \<Longrightarrow>
   (IsIllegalState s \<longrightarrow>
      fst (FindOrStartConnection env cid deadline t) =
        \<lparr>code = kServiceUnavailable, message = ''Client RPC Messenger shutting down'',
         posix_code = - 1\<rparr>)
   \<and> (\<not> IsIllegalState s \<and> \<not> ok s \<longrightarrow>
      fst (FindOrStartConnection env cid deadline t) =
        CloneAndPrepend s ''Unable to start connection negotiation thread''
      \<and> code (fst (FindOrStartConnection env cid deadline t)) = code s
      \<and> posix_code (fst (FindOrStartConnection env cid deadline t)) = posix_code s
      \<and> message (fst (FindOrStartConnection env cid deadline t)) =
          (if message s = [] then ''Unable to start connection negotiation thread''
           else ''Unable to start connection negotiation thread: '' @ message s))"
  apply (simp only: FindOrStartConnection_absent Let_def
      StartConnect_fst_indep [of env "remote cid" "snd (CreateClientSocket env t)" "remote cid" t])
  apply (auto simp: StartConnectionNegotiation_status IsIllegalState_def ok_def
      ServiceUnavailable_def CloneAndPrepend_def Status_OK_def join_msg_def split: if_splits)
  done

text \<open>C5 when the executor is closing, and when it refuses with a network error.\<close>

theorem FindOrStartConnection_negotiation_error_witness:
  "conn_map_find (client_conns ex_thread) ex_cid = None
   \<and> ok (fst (CreateClientSocket ex_env_closing ex_thread))
   \<and> ok (fst (StartConnect ex_env_closing (remote ex_cid) ex_thread))
   \<and> IsIllegalState (fst (StartConnectionNegotiation ex_env_closing 6 500 ex_thread))
   \<and> fst (FindOrStartConnection ex_env_closing ex_cid 500 ex_thread) =
        \<lparr>code = kServiceUnavailable, message = ''Client RPC Messenger shutting down'',
         posix_code = - 1\<rparr>
   \<and> code (fst (StartConnectionNegotiation ex_env_refused 6 500 ex_thread)) = kNetworkError
   \<and> fst (FindOrStartConnection ex_env_refused ex_cid 500 ex_thread) =
        \<lparr>code = kNetworkError,
         message = ''Unable to start connection negotiation thread: executor refused'',
         posix_code = - 1\<rparr>"
  using FindOrStartConnection_negotiation_error
          [of ex_thread ex_cid ex_env_closing 6 500 ex_thread
              "fst (StartConnectionNegotiation ex_env_closing 6 500 ex_thread)" 500]
        FindOrStartConnection_negotiation_error
          [of ex_thread ex_cid ex_env_refused 6 500 ex_thread
              "fst (StartConnectionNegotiation ex_env_refused 6 500 ex_thread)" 500]
  by (simp add: Let_def ex_thread_simps ex_env_simps conn_map_find_def CreateClientSocket_fst
        StartConnect_fst Status_OK_def NetworkError_def ok_def IsIllegalState_def
        StartConnectionNegotiation_status CloneAndPrepend_def join_msg_def)

subsection \<open>Reuse of client connections\<close>

lemma AssignOutboundCall_deadline_frame:
  "client_conns (snd (AssignOutboundCall_deadline env call t)) = client_conns t"
  "failed_calls (snd (AssignOutboundCall_deadline env call t)) = failed_calls t"
  "next_conn (snd (AssignOutboundCall_deadline env call t)) = next_conn t"
  "heap (snd (AssignOutboundCall_deadline env call t)) = heap t"
  "socket_inits (snd (AssignOutboundCall_deadline env call t)) = socket_inits t"
  "submitted (snd (AssignOutboundCall_deadline env call t)) = submitted t"
  by (simp_all add: AssignOutboundCall_deadline_def)

lemma AssignOutboundCall_unfold:
  "AssignOutboundCall env call t =
     (let r = FindOrStartConnection env (conn_id call)
                (fst (AssignOutboundCall_deadline env call t))
                (snd (AssignOutboundCall_deadline env call t))
      in if \<not> ok (fst r)
         then (snd (snd r))\<lparr>failed_calls := failed_calls (snd (snd r)) @ [(call, fst r)]\<rparr>
         else (case fst (snd r) of
                 None \<Rightarrow> snd (snd r)
               | Some c \<Rightarrow> (snd (snd r))\<lparr>heap := (heap (snd (snd r)))
                     (c := Connection_QueueOutboundCall call (heap (snd (snd r)) c))\<rparr>))"
  by (simp add: AssignOutboundCall_def Let_def split_beta)

lemma num_entries_one: "distinct (map fst m) \<Longrightarrow> map_of m k = Some v \<Longrightarrow> num_entries k m = 1"
proof (induction m)
  case Nil
  then show ?case by simp
next
  case (Cons e m)
  show ?case
  proof (cases "fst e = k")
    case True
    with Cons.prems have "k \<notin> fst ` set m" by auto
    then have "filter (\<lambda>e. fst e = k) m = []" by (auto simp: filter_empty_conv)
    with True show ?thesis by (simp add: num_entries_def)
  next
    case False
    with Cons show ?thesis by (cases e) (auto simp: num_entries_def)
  qed
qed

lemma num_entries_append_new:
  assumes "map_of m k = None"
  shows "num_entries k (m @ [(k, v)]) = 1"
proof -
  from assms have "k \<notin> fst ` set m" by (simp add: map_of_eq_None_iff)
  then have "filter (\<lambda>e. fst e = k) m = []" by (auto simp: filter_empty_conv)
  then show ?thesis by (simp add: num_entries_def)
qed

lemma AssignOutboundCall_success:
  assumes "failed_calls (AssignOutboundCall env call t) = failed_calls t"
  shows "\<exists>c. conn_map_find (client_conns (AssignOutboundCall env call t)) (conn_id call) = Some c"
    and "distinct (map fst (client_conns t)) \<Longrightarrow>
         num_entries (conn_id call) (client_conns (AssignOutboundCall env call t)) = 1"
proof -
  let ?t0 = "snd (AssignOutboundCall_deadline env call t)"
  let ?d = "fst (AssignOutboundCall_deadline env call t)"
  note fr = AssignOutboundCall_deadline_frame
  from FindOrStartConnection_cases [of ?t0 "conn_id call" env ?d]
  show "\<exists>c. conn_map_find (client_conns (AssignOutboundCall env call t)) (conn_id call) = Some c"
    using assms
    by (auto simp: AssignOutboundCall_unfold Let_def fr conn_map_find_def ok_Status_OK
          map_add_def split: if_splits)
  from FindOrStartConnection_cases [of ?t0 "conn_id call" env ?d]
  show "distinct (map fst (client_conns t)) \<Longrightarrow>
      num_entries (conn_id call) (client_conns (AssignOutboundCall env call t)) = 1"
    using assms
    by (auto simp: AssignOutboundCall_unfold Let_def fr conn_map_find_def ok_Status_OK
          num_entries_one num_entries_append_new split: if_splits)
qed

lemma AssignOutboundCall_lookup:
  assumes "conn_map_find (client_conns t) (conn_id call) = Some c"
  shows "AssignOutboundCall env call t =
    (snd (AssignOutboundCall_deadline env call t))
      \<lparr>heap := (heap t)(c := Connection_QueueOutboundCall call (heap t c))\<rparr>"
proof -
  have "conn_map_find (client_conns (snd (AssignOutboundCall_deadline env call t))) (conn_id call)
          = Some c"
    using assms by (simp add: AssignOutboundCall_deadline_frame)
  then show ?thesis
    by (simp add: AssignOutboundCall_unfold FindOrStartConnection_found Let_def ok_Status_OK
          AssignOutboundCall_deadline_frame)
qed

text \<open>
  C6. If a ConnectionId is a key of \<open>client_conns\<close>, FindOrStartConnection returns the
  Connection stored under it and the state it was given: no socket, no new entry. So when
  the keys of \<open>client_conns\<close> are distinct and an AssignOutboundCall succeeds (it fails no
  call), a second AssignOutboundCall for the same ConnectionId succeeds too, whatever the
  outside world answers, and leaves the table as the first call left it, with exactly one
  entry for that ConnectionId, and creates no socket and no Connection.
\<close>

theorem client_connection_reuse:
  "(conn_map_find (client_conns t) cid = Some c \<longrightarrow>
      FindOrStartConnection env cid d t = (Status_OK, Some c, t))
   \<and> (distinct (map fst (client_conns u)) \<and> conn_id call2 = conn_id call1
       \<and> failed_calls (AssignOutboundCall env1 call1 u) = failed_calls u \<longrightarrow>
      (let u1 = AssignOutboundCall env1 call1 u; u2 = AssignOutboundCall env2 call2 u1
       in failed_calls u2 = failed_calls u1
        \<and> num_entries (conn_id call1) (client_conns u2) = 1
        \<and> client_conns u2 = client_conns u1
        \<and> socket_inits u2 = socket_inits u1
        \<and> next_conn u2 = next_conn u1))"
proof (intro conjI impI)
  assume "conn_map_find (client_conns t) cid = Some c"
  then show "FindOrStartConnection env cid d t = (Status_OK, Some c, t)"
    by (rule FindOrStartConnection_found)
next
  assume a: "distinct (map fst (client_conns u)) \<and> conn_id call2 = conn_id call1
       \<and> failed_calls (AssignOutboundCall env1 call1 u) = failed_calls u"
  let ?u1 = "AssignOutboundCall env1 call1 u"
  from a AssignOutboundCall_success(1) [of env1 call1 u]
  obtain c where c: "conn_map_find (client_conns ?u1) (conn_id call2) = Some c" by auto
  from a have one: "num_entries (conn_id call1) (client_conns ?u1) = 1"
    by (simp add: AssignOutboundCall_success(2))
  show "let u1 = AssignOutboundCall env1 call1 u; u2 = AssignOutboundCall env2 call2 u1
       in failed_calls u2 = failed_calls u1
        \<and> num_entries (conn_id call1) (client_conns u2) = 1
        \<and> client_conns u2 = client_conns u1
        \<and> socket_inits u2 = socket_inits u1
        \<and> next_conn u2 = next_conn u1"
    using one by (simp add: Let_def AssignOutboundCall_lookup [OF c] AssignOutboundCall_deadline_frame)
qed

lemma ex_call_simps:
  "conn_id ex_call = ex_cid" "timeout ex_call = 0" "conn_id ex_call2 = ex_cid" "timeout ex_call2 = 50"
  by (simp_all add: ex_call_def ex_call2_def)

lemma ex_first_call:
  "AssignOutboundCall ex_env ex_call ex_thread =
     ex_thread\<lparr>log_lines := [WarnNoTimeout ex_call], socket_inits := 1,
       heap := (heap ex_thread)(6 := (new_client ex_env ex_cid)\<lparr>outbound_calls := [ex_call]\<rparr>),
       next_conn := 7, submitted := [ClientNegotiationTask 6 MonoTime_Max],
       client_conns := [(ex_cid, 6)]\<rparr>"
  by (simp add: AssignOutboundCall_unfold FindOrStartConnection_absent Let_def
        AssignOutboundCall_deadline_def ex_call_simps ex_thread_simps ex_env_simps
        conn_map_find_def CreateClientSocket_fst CreateClientSocket_snd StartConnect_fst
        StartConnect_snd status_defs Connection_QueueOutboundCall_def new_client_def
        new_Connection_def ex_thread_def ReactorThread_init_def)

text \<open>C6 on the example thread: two calls to one ConnectionId.\<close>

theorem client_connection_reuse_witness:
  "conn_map_find (client_conns (AssignOutboundCall ex_env ex_call ex_thread)) ex_cid = Some 6
   \<and> distinct (map fst (client_conns ex_thread))
   \<and> conn_id ex_call2 = conn_id ex_call
   \<and> failed_calls (AssignOutboundCall ex_env ex_call ex_thread) = failed_calls ex_thread
   \<and> client_conns (AssignOutboundCall ex_env_refused ex_call2
        (AssignOutboundCall ex_env ex_call ex_thread)) = [(ex_cid, 6)]
   \<and> num_entries ex_cid (client_conns (AssignOutboundCall ex_env_refused ex_call2
        (AssignOutboundCall ex_env ex_call ex_thread))) = 1
   \<and> socket_inits (AssignOutboundCall ex_env_refused ex_call2
        (AssignOutboundCall ex_env ex_call ex_thread)) = 1"
  using client_connection_reuse
    [where u = ex_thread and ?call1.0 = ex_call and ?call2.0 = ex_call2 and ?env1.0 = ex_env
       and ?env2.0 = ex_env_refused and t = "AssignOutboundCall ex_env ex_call ex_thread"
       and cid = ex_cid and c = 6 and env = ex_env and d = 0]
  by (simp add: Let_def ex_first_call ex_thread_simps ex_call_simps conn_map_find_def num_entries_def)

subsection \<open>AssignOutboundCall\<close>

lemma distinct_keys_FindOrStartConnection:
  "distinct (map fst (client_conns t)) \<Longrightarrow>
   distinct (map fst (client_conns (snd (snd (FindOrStartConnection env cid d t)))))"
  using FindOrStartConnection_cases [of t cid env d]
  by (auto simp: conn_map_find_def map_of_eq_None_iff split: if_splits)

lemma FindOrStartConnection_failed_calls:
  "failed_calls (snd (snd (FindOrStartConnection env cid d t))) = failed_calls t"
  using FindOrStartConnection_cases [of t cid env d] by auto

lemma FindOrStartConnection_heap:
  "heap (snd (snd (FindOrStartConnection env cid d t))) q = heap t q
   \<or> heap (snd (snd (FindOrStartConnection env cid d t))) q = new_client env cid"
  using FindOrStartConnection_cases [of t cid env d] by (cases "q = next_conn t") auto

lemma FindOrStartConnection_log:
  "\<exists>more. log_lines (snd (snd (FindOrStartConnection env cid d t))) = log_lines t @ more
          \<and> (\<forall>k. WarnNoTimeout k \<notin> set more)"
  using FindOrStartConnection_cases [of t cid env d] by auto

lemma FindOrStartConnection_ok_conn:
  "ok (fst (FindOrStartConnection env cid d t)) \<Longrightarrow>
   \<exists>c. fst (snd (FindOrStartConnection env cid d t)) = Some c"
  using FindOrStartConnection_cases [of t cid env d] by auto

text \<open>
  C9. With a timeout of zero the deadline of the call is \<open>MonoTime::Max()\<close> and the warning
  is logged; otherwise the deadline is the fine clock plus the timeout and no such warning
  is logged. Either way FindOrStartConnection is called with that deadline (a new
  connection's negotiation task carries it): if it fails, the call is marked failed with
  its status and no connection's queue gains a call; if it succeeds, the call is appended
  to the queue of the connection it returned and nothing else in the store changes.
\<close>

theorem AssignOutboundCall_deadline_and_dispatch:
  "(let deadline = fst (AssignOutboundCall_deadline env call t);
        t0 = snd (AssignOutboundCall_deadline env call t);
        s = fst (FindOrStartConnection env (conn_id call) deadline t0);
        conn = fst (snd (FindOrStartConnection env (conn_id call) deadline t0));
        t1 = snd (snd (FindOrStartConnection env (conn_id call) deadline t0));
        t' = AssignOutboundCall env call t
    in (timeout call = 0 \<longrightarrow>
          deadline = MonoTime_Max
          \<and> (\<exists>more. log_lines t' = log_lines t @ WarnNoTimeout call # more))
     \<and> (timeout call \<noteq> 0 \<longrightarrow>
          deadline = now_fine env + timeout call
          \<and> (\<exists>more. log_lines t' = log_lines t @ more \<and> WarnNoTimeout call \<notin> set more))
     \<and> (\<not> ok s \<longrightarrow>
          failed_calls t' = failed_calls t @ [(call, s)]
          \<and> (\<forall>p. outbound_calls (heap t' p) = outbound_calls (heap t p)
                  \<or> outbound_calls (heap t' p) = []))
     \<and> (ok s \<longrightarrow>
          failed_calls t' = failed_calls t
          \<and> (\<exists>c. conn = Some c
                 \<and> outbound_calls (heap t' c) = outbound_calls (heap t1 c) @ [call]
                 \<and> (\<forall>p. p \<noteq> c \<longrightarrow> heap t' p = heap t1 p)))
     \<and> (conn_map_find (client_conns t) (conn_id call) = None
         \<and> ok (fst (CreateClientSocket env t)) \<and> ok (fst (StartConnect env (remote (conn_id call)) t)) \<longrightarrow>
          submitted t' = submitted t @ [ClientNegotiationTask (next_conn t) deadline]))"
proof -
  let ?d = "fst (AssignOutboundCall_deadline env call t)"
  let ?t0 = "snd (AssignOutboundCall_deadline env call t)"
  let ?r = "FindOrStartConnection env (conn_id call) ?d ?t0"
  let ?t' = "AssignOutboundCall env call t"
  note fr = AssignOutboundCall_deadline_frame
  have log0: "log_lines ?t0 =
      (if timeout call = 0 then log_lines t @ [WarnNoTimeout call] else log_lines t)"
    by (simp add: AssignOutboundCall_deadline_def)
  have dl: "?d = (if timeout call = 0 then MonoTime_Max else now_fine env + timeout call)"
    by (simp add: AssignOutboundCall_deadline_def)
  have log': "log_lines ?t' = log_lines (snd (snd ?r))"
    by (simp add: AssignOutboundCall_unfold Let_def split: option.splits)
  obtain more where more: "log_lines (snd (snd ?r)) = log_lines ?t0 @ more"
      "\<forall>k. WarnNoTimeout k \<notin> set more"
    using FindOrStartConnection_log [of env "conn_id call" ?d ?t0] by blast
  have c1: "timeout call = 0 \<longrightarrow>
      ?d = MonoTime_Max \<and> (\<exists>more. log_lines ?t' = log_lines t @ WarnNoTimeout call # more)"
  proof (intro impI conjI)
    assume z: "timeout call = 0"
    then show "?d = MonoTime_Max" by (simp add: dl)
    from z more(1) have "log_lines ?t' = log_lines t @ WarnNoTimeout call # more"
      by (simp add: log' log0)
    then show "\<exists>more. log_lines ?t' = log_lines t @ WarnNoTimeout call # more" by blast
  qed
  have c2: "timeout call \<noteq> 0 \<longrightarrow>
      ?d = now_fine env + timeout call
      \<and> (\<exists>more. log_lines ?t' = log_lines t @ more \<and> WarnNoTimeout call \<notin> set more)"
  proof (intro impI conjI)
    assume z: "timeout call \<noteq> 0"
    then show "?d = now_fine env + timeout call" by (simp add: dl)
    from z more have "log_lines ?t' = log_lines t @ more \<and> WarnNoTimeout call \<notin> set more"
      by (simp add: log' log0)
    then show "\<exists>more. log_lines ?t' = log_lines t @ more \<and> WarnNoTimeout call \<notin> set more"
      by blast
  qed
  have c3: "\<not> ok (fst ?r) \<longrightarrow>
      failed_calls ?t' = failed_calls t @ [(call, fst ?r)]
      \<and> (\<forall>p. outbound_calls (heap ?t' p) = outbound_calls (heap t p)
              \<or> outbound_calls (heap ?t' p) = [])"
  proof (intro impI conjI allI)
    assume f: "\<not> ok (fst ?r)"
    then have t': "?t' = (snd (snd ?r))\<lparr>failed_calls := failed_calls (snd (snd ?r)) @ [(call, fst ?r)]\<rparr>"
      by (simp add: AssignOutboundCall_unfold Let_def)
    show "failed_calls ?t' = failed_calls t @ [(call, fst ?r)]"
      by (simp add: t' FindOrStartConnection_failed_calls fr)
    fix p
    show "outbound_calls (heap ?t' p) = outbound_calls (heap t p) \<or> outbound_calls (heap ?t' p) = []"
      using FindOrStartConnection_heap [of env "conn_id call" ?d ?t0 p]
      by (auto simp: t' fr new_client_def new_Connection_def)
  qed
  have c4: "ok (fst ?r) \<longrightarrow>
      failed_calls ?t' = failed_calls t
      \<and> (\<exists>c. fst (snd ?r) = Some c
             \<and> outbound_calls (heap ?t' c) = outbound_calls (heap (snd (snd ?r)) c) @ [call]
             \<and> (\<forall>p. p \<noteq> c \<longrightarrow> heap ?t' p = heap (snd (snd ?r)) p))"
  proof (intro impI)
    assume k: "ok (fst ?r)"
    then obtain c where c: "fst (snd ?r) = Some c"
      using FindOrStartConnection_ok_conn by blast
    have t': "?t' = (snd (snd ?r))\<lparr>heap := (heap (snd (snd ?r)))
                     (c := Connection_QueueOutboundCall call (heap (snd (snd ?r)) c))\<rparr>"
      using k c by (simp add: AssignOutboundCall_unfold Let_def)
    show "failed_calls ?t' = failed_calls t
      \<and> (\<exists>c. fst (snd ?r) = Some c
             \<and> outbound_calls (heap ?t' c) = outbound_calls (heap (snd (snd ?r)) c) @ [call]
             \<and> (\<forall>p. p \<noteq> c \<longrightarrow> heap ?t' p = heap (snd (snd ?r)) p))"
      by (simp add: t' c FindOrStartConnection_failed_calls fr Connection_QueueOutboundCall_def)
  qed
  have c5: "conn_map_find (client_conns t) (conn_id call) = None
      \<and> ok (fst (CreateClientSocket env t))
      \<and> ok (fst (StartConnect env (remote (conn_id call)) t)) \<longrightarrow>
      submitted ?t' = submitted t @ [ClientNegotiationTask (next_conn t) ?d]"
  proof (intro impI, elim conjE)
    assume n: "conn_map_find (client_conns t) (conn_id call) = None"
      and o1: "ok (fst (CreateClientSocket env t))"
      and o2: "ok (fst (StartConnect env (remote (conn_id call)) t))"
    from n have n0: "conn_map_find (client_conns ?t0) (conn_id call) = None" by (simp add: fr)
    from o1 have o1': "\<And>u. ok (fst (CreateClientSocket env u))"
      by (simp add: CreateClientSocket_fst)
    from o2 have o2': "\<And>u. ok (fst (StartConnect env (remote (conn_id call)) u))"
      by (simp add: StartConnect_fst)
    show "submitted ?t' = submitted t @ [ClientNegotiationTask (next_conn t) ?d]"
      by (simp add: AssignOutboundCall_unfold FindOrStartConnection_absent [OF n0] Let_def o1' o2'
            CreateClientSocket_snd StartConnect_snd fr not_ok_ServiceUnavailable
            ok_CloneAndPrepend ok_Status_OK)
  qed
  from c1 c2 c3 c4 c5 show ?thesis unfolding Let_def by blast
qed

lemma ex_refused_call:
  "AssignOutboundCall ex_env_refused ex_call2 ex_thread =
     ex_thread\<lparr>socket_inits := 1,
       heap := (heap ex_thread)(6 := new_client ex_env_refused ex_cid),
       next_conn := 7, submitted := [ClientNegotiationTask 6 150],
       failed_calls := [(ex_call2,
         \<lparr>code = kNetworkError,
          message = ''Unable to start connection negotiation thread: executor refused'',
          posix_code = - 1\<rparr>)]\<rparr>"
  by (simp add: AssignOutboundCall_unfold FindOrStartConnection_absent Let_def
        AssignOutboundCall_deadline_def ex_call_simps ex_thread_simps ex_env_simps
        conn_map_find_def CreateClientSocket_fst CreateClientSocket_snd StartConnect_fst
        StartConnect_snd status_defs ex_thread_def ReactorThread_init_def)

text \<open>C9 for a call without a timeout that is queued, and one with a timeout that fails.\<close>

theorem AssignOutboundCall_deadline_and_dispatch_witness:
  "timeout ex_call = 0
   \<and> fst (AssignOutboundCall_deadline ex_env ex_call ex_thread) = MonoTime_Max
   \<and> log_lines (AssignOutboundCall ex_env ex_call ex_thread) = [WarnNoTimeout ex_call]
   \<and> outbound_calls (heap (AssignOutboundCall ex_env ex_call ex_thread) 6) = [ex_call]
   \<and> failed_calls (AssignOutboundCall ex_env ex_call ex_thread) = []
   \<and> timeout ex_call2 = 50
   \<and> fst (AssignOutboundCall_deadline ex_env_refused ex_call2 ex_thread) = 150
   \<and> log_lines (AssignOutboundCall ex_env_refused ex_call2 ex_thread) = []
   \<and> map fst (failed_calls (AssignOutboundCall ex_env_refused ex_call2 ex_thread)) = [ex_call2]
   \<and> outbound_calls (heap (AssignOutboundCall ex_env_refused ex_call2 ex_thread) 6) = []"
  using AssignOutboundCall_deadline_and_dispatch [of ex_env ex_call ex_thread]
    AssignOutboundCall_deadline_and_dispatch [of ex_env_refused ex_call2 ex_thread]
  by (simp add: ex_first_call ex_refused_call ex_call_simps ex_thread_simps ex_env_simps
        AssignOutboundCall_deadline_def new_client_def new_Connection_def)

subsection \<open>ScanIdleConnections\<close>

lemma timed_out_conn_Shutdown: "timed_out (conn_Shutdown c s u) = timed_out u"
  by (rule ext) (simp add: timed_out_def conn_Shutdown_def Connection_Shutdown_def)

lemma keepalive_conn_Shutdown:
  "connection_keepalive_time (conn_Shutdown c s u) = connection_keepalive_time u"
  by (simp add: conn_Shutdown_def)

lemma scan_loop_result:
  "scan_loop ToString cs u n =
     (filter (\<lambda>c. \<not> timed_out u c) cs,
      u\<lparr>heap := scan_heap ToString cs u\<rparr>,
      n + length (filter (timed_out u) cs))"
proof (induction cs arbitrary: u n)
  case Nil
  then show ?case by (simp add: scan_heap_def)
next
  case (Cons c cs)
  show ?case
  proof (cases "timed_out u c")
    case True
    let ?s = "timed_out_status ToString (connection_keepalive_time u)"
    have h: "scan_heap ToString cs (conn_Shutdown c ?s u) = scan_heap ToString (c # cs) u"
      using True
      by (auto simp: scan_heap_def fun_eq_iff timed_out_conn_Shutdown keepalive_conn_Shutdown)
         (auto simp: conn_Shutdown_def Connection_Shutdown_def)
    have "scan_loop ToString (c # cs) u n = scan_loop ToString cs (conn_Shutdown c ?s u) (n + 1)"
      using True by (simp add: timed_out_def)
    also have "\<dots> = (filter (\<lambda>c. \<not> timed_out u c) cs,
        (conn_Shutdown c ?s u)\<lparr>heap := scan_heap ToString (c # cs) u\<rparr>,
        n + 1 + length (filter (timed_out u) cs))"
      by (simp add: Cons.IH timed_out_conn_Shutdown h)
    finally show ?thesis using True by (simp add: conn_Shutdown_def)
  next
    case False
    have h: "scan_heap ToString cs u = scan_heap ToString (c # cs) u"
      using False by (auto simp: scan_heap_def fun_eq_iff)
    have "scan_loop ToString (c # cs) u n =
        (let (kept, t', n') = scan_loop ToString cs u n in (c # kept, t', n'))"
      using False by (auto simp: timed_out_def)
    then show ?thesis using False by (simp add: Cons.IH h)
  qed
qed

text \<open>
  C7. After ScanIdleConnections, \<open>server_conns\<close> holds, in their order, the connections
  that were not both idle and inactive for more than the keepalive by the cached clock;
  each connection it dropped has been shut down with a network error whose message starts
  with "connection timed out"; every other connection in the store is as it was; and
  \<open>client_conns\<close> is as it was.
\<close>

theorem ScanIdleConnections_removes_timed_out:
  "(let t' = ScanIdleConnections ToString t;
        st = timed_out_status ToString (connection_keepalive_time t)
    in server_conns t' = filter (\<lambda>c. \<not> timed_out t c) (server_conns t)
     \<and> (\<forall>c \<in> set (server_conns t). timed_out t c \<longrightarrow> shutdown_status (heap t' c) = Some st)
     \<and> (\<forall>c. \<not> (c \<in> set (server_conns t) \<and> timed_out t c) \<longrightarrow> heap t' c = heap t c)
     \<and> client_conns t' = client_conns t
     \<and> code st = kNetworkError
     \<and> message st =
         ''connection timed out'' @ '' after '' @ ToString (connection_keepalive_time t)
           @ '' seconds'')"
  by (simp add: ScanIdleConnections_def scan_loop_result Let_def scan_heap_def
        Connection_Shutdown_def timed_out_status_def NetworkError_def)

lemma ex_scan_thread_simps:
  "server_conns ex_scan_thread = [0, 5, 8]" "client_conns ex_scan_thread = [(ex_cid, 9)]"
  "cur_time ex_scan_thread = 100" "connection_keepalive_time ex_scan_thread = 10"
  "heap ex_scan_thread 0 = new_Connection 0 SERVER 0"
  "heap ex_scan_thread 5 = (new_Connection 3 SERVER 0)\<lparr>Idle := False\<rparr>"
  "heap ex_scan_thread 8 = new_Connection 4 SERVER 95"
  by (simp_all add: ex_scan_thread_def ReactorThread_init_def)

text \<open>C7 on the example: of three server connections only the first has timed out.\<close>

theorem ScanIdleConnections_removes_timed_out_witness:
  "timed_out ex_scan_thread 0 \<and> \<not> timed_out ex_scan_thread 5 \<and> \<not> timed_out ex_scan_thread 8
   \<and> server_conns (ScanIdleConnections ex_ToString ex_scan_thread) = [5, 8]
   \<and> shutdown_status (heap (ScanIdleConnections ex_ToString ex_scan_thread) 0) =
       Some (NetworkError ''connection timed out after 0.00000001 seconds'')
   \<and> heap (ScanIdleConnections ex_ToString ex_scan_thread) 5 = heap ex_scan_thread 5
   \<and> heap (ScanIdleConnections ex_ToString ex_scan_thread) 8 = heap ex_scan_thread 8
   \<and> client_conns (ScanIdleConnections ex_ToString ex_scan_thread) = [(ex_cid, 9)]"
  using ScanIdleConnections_removes_timed_out [of ex_ToString ex_scan_thread]
  by (simp add: Let_def ex_scan_thread_simps timed_out_def new_Connection_def
        timed_out_status_def ex_ToString_def)

section \<open>Properties of the Reactor and its threads\<close>

subsection \<open>Shutdown, called again\<close>

lemma abort_pending_eq:
  "abort_pending r =
     r\<lparr>pending_tasks := [],
       calls := calls r @ map (\<lambda>x. Abort x ShutdownError) (pending_tasks r)\<rparr>"
proof (induction r rule: abort_pending.induct)
  case (1 r)
  show ?case
  proof (cases "pending_tasks r")
    case Nil
    then show ?thesis by (subst abort_pending.simps) simp
  next
    case (Cons x xs)
    then have "abort_pending r = abort_pending (abort_front r)"
      by (subst abort_pending.simps) simp
    also have "\<dots> = (abort_front r)\<lparr>pending_tasks := [],
        calls := calls (abort_front r) @ map (\<lambda>x. Abort x ShutdownError) (pending_tasks (abort_front r))\<rparr>"
      using Cons by (intro "1.IH") simp
    finally show ?thesis using Cons by (simp add: abort_front_def)
  qed
qed

lemma run_tasks_eq: "run_tasks ts r = r\<lparr>calls := calls r @ map Run ts\<rparr>"
  by (induction ts arbitrary: r) simp_all

text \<open>
  C8. The first call of Reactor::Shutdown (\<open>closing\<close> not yet set) sets \<open>closing\<close>, wakes the
  loop and aborts every pending task, in queue order, with the shutdown error, leaving the
  queue empty. A call that finds \<open>closing\<close> set returns the Reactor exactly as it was: no
  field changes, the notifier is not touched, no task is aborted. In particular a second
  call after the first changes nothing.
\<close>

theorem Reactor_Shutdown_idempotent:
  "(\<not> closing r \<longrightarrow>
      (\<exists>r'. Reactor_Shutdown r = Inr r' \<and> closing r' \<and> async_pending r'
            \<and> pending_tasks r' = []
            \<and> calls r' = calls r @ map (\<lambda>x. Abort x ShutdownError) (pending_tasks r)
            \<and> Reactor_Shutdown r' = Inr r'))
   \<and> (closing r \<longrightarrow> Reactor_Shutdown r = Inr r)"
  by (simp add: Reactor_Shutdown_def ReactorThread_Shutdown_def WakeThread_def abort_pending_eq)

text \<open>C8 on a Reactor with two pending tasks: the first call, then the second.\<close>

theorem Reactor_Shutdown_idempotent_witness:
  "\<not> closing ex_reactor
   \<and> Reactor_Shutdown ex_reactor =
       Inr (ex_reactor\<lparr>closing := True, async_pending := True, pending_tasks := [],
                       calls := [Abort 21 ShutdownError, Abort 22 ShutdownError]\<rparr>)
   \<and> closing (ex_reactor\<lparr>closing := True, async_pending := True, pending_tasks := [],
                       calls := [Abort 21 ShutdownError, Abort 22 ShutdownError]\<rparr>)
   \<and> Reactor_Shutdown (ex_reactor\<lparr>closing := True, async_pending := True, pending_tasks := [],
                       calls := [Abort 21 ShutdownError, Abort 22 ShutdownError]\<rparr>) =
       Inr (ex_reactor\<lparr>closing := True, async_pending := True, pending_tasks := [],
                       calls := [Abort 21 ShutdownError, Abort 22 ShutdownError]\<rparr>)"
  using Reactor_Shutdown_idempotent [of ex_reactor]
    Reactor_Shutdown_idempotent [of "ex_reactor\<lparr>closing := True, async_pending := True,
       pending_tasks := [], calls := [Abort 21 ShutdownError, Abort 22 ShutdownError]\<rparr>"]
  by (simp add: ex_reactor_def Reactor_init_def Reactor_Shutdown_def ReactorThread_Shutdown_def
        WakeThread_def abort_pending_eq)

subsection \<open>No task is lost, none is finished twice\<close>

lemma World_inv_init: "World_inv (World_init keepalive now)"
  by (simp add: World_inv_def World_init_def Reactor_init_def)

lemma step_World_inv:
  assumes "World_inv w" and "step a w = Some w'"
  shows "World_inv w'"
proof (cases a)
  case (Schedule x)
  with assms show ?thesis
    by (auto simp: World_inv_def ScheduleReactorTask_def WakeThread_def split: if_splits)
next
  case LoopWake
  with assms show ?thesis
    by (auto simp: World_inv_def Let_def split: if_splits)
next
  case LoopDrain
  with assms show ?thesis
    by (auto simp: World_inv_def DrainTaskQueue_def split: if_splits)
next
  case LoopRun
  with assms show ?thesis
    by (auto simp: World_inv_def split: if_splits list.splits)
next
  case LoopDone
  with assms show ?thesis
    by (auto simp: World_inv_def split: if_splits)
next
  case CallShutdown
  with assms show ?thesis
    by (auto simp: World_inv_def split: if_splits)
next
  case ShutdownWake
  with assms show ?thesis
    by (auto simp: World_inv_def ReactorThread_Shutdown_def WakeThread_def split: if_splits)
next
  case ShutdownAbort
  with assms show ?thesis
    by (auto simp: World_inv_def abort_front_def split: if_splits list.splits)
next
  case ShutdownReturn
  with assms show ?thesis
    by (auto simp: World_inv_def split: if_splits)
qed

lemma steps_World_inv: "World_inv w \<Longrightarrow> steps as w = Some w' \<Longrightarrow> World_inv w'"
proof (induction as arbitrary: w)
  case Nil
  then show ?case by simp
next
  case (Cons a as)
  then show ?case by (auto split: option.splits dest: step_World_inv)
qed

lemma steps_append:
  "steps (as @ bs) w = (case steps as w of None \<Rightarrow> None | Some w' \<Rightarrow> steps bs w')"
  by (induction as arbitrary: w) (auto split: option.splits)

lemma finalised_count:
  "runs_of x cs + aborts_of x cs = count (mset (map task_of cs)) x"
proof (induction cs)
  case Nil
  then show ?case by (simp add: runs_of_def aborts_of_def)
next
  case (Cons c cs)
  then show ?case by (cases c) (auto simp: runs_of_def aborts_of_def)
qed

lemma steps_ShutdownAbort:
  "shutdown_pc w = ShutdownAborting \<Longrightarrow>
   steps (replicate (length (pending_tasks (reactor w))) ShutdownAbort) w =
     Some (w\<lparr>reactor := abort_pending (reactor w)\<rparr>)"
proof (induction "pending_tasks (reactor w)" arbitrary: w)
  case Nil
  then show ?case by (simp add: abort_pending_eq)
next
  case (Cons x xs)
  let ?w1 = "w\<lparr>reactor := abort_front (reactor w)\<rparr>"
  from Cons(2) have p: "pending_tasks (reactor w) = x # xs" by simp
  then have xs: "xs = pending_tasks (reactor ?w1)" by (simp add: abort_front_def)
  have pc: "shutdown_pc ?w1 = ShutdownAborting" using Cons.prems by simp
  have "steps (replicate (length (pending_tasks (reactor w))) ShutdownAbort) w =
      steps (replicate (length xs) ShutdownAbort) ?w1"
    using p Cons.prems by simp
  also have "\<dots> = Some (?w1\<lparr>reactor := abort_pending (reactor ?w1)\<rparr>)"
    using Cons(1) [OF xs pc] xs by simp
  finally show ?case using p by (simp add: abort_pending_eq abort_front_def)
qed

lemma steps_LoopRun:
  "loop_pc w = LoopRunning \<Longrightarrow>
   steps (replicate (length (tasks w)) LoopRun) w =
     Some (w\<lparr>reactor := run_tasks (tasks w) (reactor w), tasks := []\<rparr>)"
proof (induction "tasks w" arbitrary: w)
  case Nil
  then show ?case by simp
next
  case (Cons x xs)
  let ?w1 = "w\<lparr>reactor := (reactor w)\<lparr>calls := calls (reactor w) @ [Run x]\<rparr>, tasks := xs\<rparr>"
  from Cons(2) have p: "tasks w = x # xs" by simp
  have xs: "xs = tasks ?w1" by simp
  have pc: "loop_pc ?w1 = LoopRunning" using Cons.prems by simp
  have "steps (replicate (length (tasks w)) LoopRun) w = steps (replicate (length xs) LoopRun) ?w1"
    using p Cons.prems by simp
  also have "\<dots> = Some (?w1\<lparr>reactor := run_tasks (tasks ?w1) (reactor ?w1), tasks := []\<rparr>)"
    using Cons(1) [OF xs pc] by simp
  finally show ?case using p by (simp add: run_tasks_eq)
qed

lemma steps_abort_return:
  "shutdown_pc w = ShutdownAborting \<Longrightarrow>
   steps (replicate (length (pending_tasks (reactor w))) ShutdownAbort @ [ShutdownReturn]) w =
     Some (w\<lparr>reactor := abort_pending (reactor w), shutdown_pc := ShutdownReturned\<rparr>)"
  by (simp add: steps_append steps_ShutdownAbort abort_pending_eq)

lemma steps_finish_shutdown:
  assumes "World_inv w"
  shows "steps (finish_shutdown w) w =
     Some (w\<lparr>reactor := (reactor w)\<lparr>closing := True,
                 async_pending := (async_pending (reactor w)
                     \<or> shutdown_pc w = ShutdownNotCalled \<or> shutdown_pc w = ShutdownWaking),
                 pending_tasks := [],
                 calls := calls (reactor w)
                   @ map (\<lambda>x. Abort x ShutdownError) (pending_tasks (reactor w))\<rparr>,
             shutdown_pc := ShutdownReturned\<rparr>)"
proof (cases "shutdown_pc w")
  case ShutdownNotCalled
  let ?n = "length (pending_tasks (reactor w))"
  let ?w2 = "w\<lparr>reactor := (reactor w)\<lparr>closing := True, async_pending := True\<rparr>,
                shutdown_pc := ShutdownAborting\<rparr>"
  from assms ShutdownNotCalled have nc: "\<not> closing (reactor w)" by (simp add: World_inv_def)
  have a: "steps [CallShutdown, ShutdownWake] w = Some ?w2"
    using nc by (simp add: ReactorThread_Shutdown_def WakeThread_def)
  have b: "steps (replicate ?n ShutdownAbort @ [ShutdownReturn]) ?w2 =
      Some (?w2\<lparr>reactor := abort_pending (reactor ?w2), shutdown_pc := ShutdownReturned\<rparr>)"
    using steps_abort_return [of ?w2] by simp
  have "steps (finish_shutdown w) w =
      steps ([CallShutdown, ShutdownWake] @ (replicate ?n ShutdownAbort @ [ShutdownReturn])) w"
    using ShutdownNotCalled by (simp add: finish_shutdown_def)
  also have "\<dots> = steps (replicate ?n ShutdownAbort @ [ShutdownReturn]) ?w2"
    by (simp only: steps_append a option.case)
  also note b
  finally show ?thesis using ShutdownNotCalled by (simp add: abort_pending_eq)
next
  case ShutdownWaking
  let ?n = "length (pending_tasks (reactor w))"
  let ?w2 = "w\<lparr>reactor := (reactor w)\<lparr>async_pending := True\<rparr>, shutdown_pc := ShutdownAborting\<rparr>"
  from assms ShutdownWaking have c: "closing (reactor w)" by (simp add: World_inv_def)
  have a: "steps [ShutdownWake] w = Some ?w2"
    using c ShutdownWaking by (simp add: ReactorThread_Shutdown_def WakeThread_def)
  have b: "steps (replicate ?n ShutdownAbort @ [ShutdownReturn]) ?w2 =
      Some (?w2\<lparr>reactor := abort_pending (reactor ?w2), shutdown_pc := ShutdownReturned\<rparr>)"
    using steps_abort_return [of ?w2] by simp
  have "steps (finish_shutdown w) w =
      steps ([ShutdownWake] @ (replicate ?n ShutdownAbort @ [ShutdownReturn])) w"
    using ShutdownWaking by (simp add: finish_shutdown_def)
  also have "\<dots> = steps (replicate ?n ShutdownAbort @ [ShutdownReturn]) ?w2"
    by (simp only: steps_append a option.case)
  also note b
  finally show ?thesis using ShutdownWaking c by (simp add: abort_pending_eq)
next
  case ShutdownAborting
  from assms ShutdownAborting have c: "closing (reactor w)" by (simp add: World_inv_def)
  have "steps (finish_shutdown w) w =
      steps (replicate (length (pending_tasks (reactor w))) ShutdownAbort @ [ShutdownReturn]) w"
    using ShutdownAborting by (simp add: finish_shutdown_def)
  also note steps_abort_return [OF ShutdownAborting]
  finally show ?thesis using ShutdownAborting c by (simp add: abort_pending_eq)
next
  case ShutdownReturned
  with assms have "closing (reactor w)" "pending_tasks (reactor w) = []"
    by (simp_all add: World_inv_def)
  then show ?thesis using ShutdownReturned by (simp add: finish_shutdown_def)
qed

lemma steps_finish_loop:
  assumes "World_inv w" and "closing (reactor w)"
  shows "steps (finish_loop w) w =
     Some (w\<lparr>reactor := (reactor w)\<lparr>calls := calls (reactor w) @ map Run (tasks w)\<rparr>,
             tasks := [],
             loop_pc := (if loop_pc w = LoopDraining then LoopRunning else loop_pc w)\<rparr>)"
proof (cases "loop_pc w")
  case LoopWaiting
  with assms show ?thesis by (simp add: finish_loop_def World_inv_def)
next
  case LoopDraining
  with assms show ?thesis by (simp add: finish_loop_def World_inv_def DrainTaskQueue_def)
next
  case LoopRunning
  then show ?thesis by (simp add: finish_loop_def steps_LoopRun run_tasks_eq)
next
  case LoopExited
  with assms show ?thesis by (simp add: finish_loop_def World_inv_def)
qed

lemma steps_finish:
  assumes "World_inv w"
  shows "\<exists>w'. steps (finish w) w = Some w'
     \<and> scheduled w' = scheduled w
     \<and> pending_tasks (reactor w') = [] \<and> tasks w' = []
     \<and> shutdown_pc w' = ShutdownReturned
     \<and> calls (reactor w') =
         calls (reactor w) @ map (\<lambda>x. Abort x ShutdownError) (pending_tasks (reactor w))
           @ map Run (tasks w)"
proof -
  let ?w1 = "w\<lparr>reactor := (reactor w)\<lparr>closing := True,
                 async_pending := (async_pending (reactor w)
                     \<or> shutdown_pc w = ShutdownNotCalled \<or> shutdown_pc w = ShutdownWaking),
                 pending_tasks := [],
                 calls := calls (reactor w)
                   @ map (\<lambda>x. Abort x ShutdownError) (pending_tasks (reactor w))\<rparr>,
             shutdown_pc := ShutdownReturned\<rparr>"
  have s1: "steps (finish_shutdown w) w = Some ?w1"
    by (rule steps_finish_shutdown [OF assms])
  then have inv1: "World_inv ?w1" by (rule steps_World_inv [OF assms])
  have fl: "finish_loop ?w1 = finish_loop w" by (simp add: finish_loop_def split: LoopPC.splits)
  have s2: "steps (finish_loop w) ?w1 =
     Some (?w1\<lparr>reactor := (reactor ?w1)\<lparr>calls := calls (reactor ?w1) @ map Run (tasks ?w1)\<rparr>,
             tasks := [],
             loop_pc := (if loop_pc ?w1 = LoopDraining then LoopRunning else loop_pc ?w1)\<rparr>)"
    using steps_finish_loop [OF inv1] fl by simp
  have "steps (finish w) w = steps (finish_loop w) ?w1"
    by (simp only: finish_def steps_append s1 option.case)
  with s2 show ?thesis by simp
qed

text \<open>
  The steps are the functions, cut at the locks: run on its own, the caller of Shutdown
  does what Reactor::Shutdown does, and the loop thread what AsyncHandler does once the
  event loop has cleared the notifier.
\<close>

lemma Reactor_Shutdown_as_steps:
  assumes "World_inv w" and "shutdown_pc w = ShutdownNotCalled"
  shows "map_option (Inr \<circ> reactor) (steps (finish_shutdown w) w) = Some (Reactor_Shutdown (reactor w))"
proof -
  from assms have nc: "\<not> closing (reactor w)" by (simp add: World_inv_def)
  show ?thesis
    using nc assms(2)
    by (simp add: steps_finish_shutdown [OF assms(1)] Reactor_Shutdown_def
          ReactorThread_Shutdown_def WakeThread_def abort_pending_eq)
qed

lemma AsyncHandler_as_steps:
  assumes "loop_pc w = LoopWaiting" and "async_pending (reactor w)" and "tasks w = []"
  shows "map_option reactor
           (steps (if closing (reactor w) then [LoopWake]
                   else [LoopWake, LoopDrain]
                          @ replicate (length (pending_tasks (reactor w))) LoopRun) w)
         = Some (AsyncHandler ((reactor w)\<lparr>async_pending := False\<rparr>))"
proof (cases "closing (reactor w)")
  case True
  with assms show ?thesis by (simp add: AsyncHandler_def)
next
  case False
  let ?w2 = "w\<lparr>reactor := (reactor w)\<lparr>async_pending := False, pending_tasks := []\<rparr>,
               tasks := pending_tasks (reactor w), loop_pc := LoopRunning\<rparr>"
  have a: "steps [LoopWake, LoopDrain] w = Some ?w2"
    using False assms by (simp add: DrainTaskQueue_def)
  have b: "steps (replicate (length (pending_tasks (reactor w))) LoopRun) ?w2 =
      Some (?w2\<lparr>reactor := run_tasks (tasks ?w2) (reactor ?w2), tasks := []\<rparr>)"
    using steps_LoopRun [of ?w2] by simp
  have "steps ([LoopWake, LoopDrain] @ replicate (length (pending_tasks (reactor w))) LoopRun) w
      = steps (replicate (length (pending_tasks (reactor w))) LoopRun) ?w2"
    by (simp only: steps_append a option.case)
  with b False show ?thesis by (simp add: AsyncHandler_def DrainTaskQueue_def)
qed

lemma count_mset_list: "count (mset xs) x = count_list xs x"
  by (induction xs) auto

lemma count_distinct: "distinct xs \<Longrightarrow> count (mset xs) x = (if x \<in> set xs then 1 else 0)"
  by (induction xs) auto

lemma World_inv_count:
  assumes "World_inv w"
  shows "runs_of x (calls (reactor w)) + aborts_of x (calls (reactor w))
         + count_list (pending_tasks (reactor w)) x + count_list (tasks w) x
       = (if x \<in> set (scheduled w) then 1 else 0)"
proof -
  from assms have d: "distinct (scheduled w)"
    and m: "mset (scheduled w) =
          mset (pending_tasks (reactor w)) + mset (tasks w)
            + mset (map task_of (calls (reactor w)))"
    by (simp_all add: World_inv_def)
  have "count (mset (scheduled w)) x =
      count_list (pending_tasks (reactor w)) x + count_list (tasks w) x
        + (runs_of x (calls (reactor w)) + aborts_of x (calls (reactor w)))"
    by (simp add: m finalised_count count_mset_list)
  with count_distinct [OF d, of x] show ?thesis by simp
qed

text \<open>
  C1. In every world the threads can reach, each task handed to ScheduleReactorTask is
  in exactly one place: it has been Run once, or Aborted once, or it is still in
  \<open>pending_tasks\<close>, or in the list AsyncHandler is working through; a task never handed over
  is in none. Once the first Shutdown has returned, \<open>pending_tasks\<close> is empty. From every
  such world the threads can go on (\<open>finish\<close>) to a world in which every task handed over
  has been Run or Aborted exactly once, the invocations already made still standing. The
  three ways a task meets its end: ScheduleReactorTask on a closing Reactor aborts its
  task at once; AsyncHandler on a Reactor that is not closing runs all pending tasks;
  Shutdown on a Reactor that is not closing aborts all pending tasks.
\<close>

theorem no_task_leak:
  "steps as (World_init keepalive now) = Some w \<Longrightarrow>
   (\<forall>x. runs_of x (calls (reactor w)) + aborts_of x (calls (reactor w))
          + count_list (pending_tasks (reactor w)) x + count_list (tasks w) x
        = (if x \<in> set (scheduled w) then 1 else 0))
   \<and> (shutdown_pc w = ShutdownReturned \<longrightarrow> pending_tasks (reactor w) = [])
   \<and> (\<exists>w'. steps (finish w) w = Some w' \<and> scheduled w' = scheduled w
          \<and> (\<exists>more. calls (reactor w') = calls (reactor w) @ more)
          \<and> (\<forall>x. runs_of x (calls (reactor w')) + aborts_of x (calls (reactor w'))
                 = (if x \<in> set (scheduled w) then 1 else 0)))
   \<and> (closing r1 \<longrightarrow>
         ScheduleReactorTask y r1 = r1\<lparr>calls := calls r1 @ [Abort y ShutdownError]\<rparr>)
   \<and> (\<not> closing r2 \<longrightarrow>
         calls (AsyncHandler r2) = calls r2 @ map Run (pending_tasks r2)
         \<and> pending_tasks (AsyncHandler r2) = [])
   \<and> (\<not> closing r3 \<longrightarrow>
         (\<exists>r'. Reactor_Shutdown r3 = Inr r' \<and> pending_tasks r' = []
               \<and> calls r' = calls r3 @ map (\<lambda>x. Abort x ShutdownError) (pending_tasks r3)))"
proof -
  assume run: "steps as (World_init keepalive now) = Some w"
  have inv: "World_inv w"
    using World_inv_init run by (rule steps_World_inv)
  have c1: "\<forall>x. runs_of x (calls (reactor w)) + aborts_of x (calls (reactor w))
          + count_list (pending_tasks (reactor w)) x + count_list (tasks w) x
        = (if x \<in> set (scheduled w) then 1 else 0)"
    using World_inv_count [OF inv] by blast
  have c2: "shutdown_pc w = ShutdownReturned \<longrightarrow> pending_tasks (reactor w) = []"
    using inv by (simp add: World_inv_def)
  have c3: "\<exists>w'. steps (finish w) w = Some w' \<and> scheduled w' = scheduled w
          \<and> (\<exists>more. calls (reactor w') = calls (reactor w) @ more)
          \<and> (\<forall>x. runs_of x (calls (reactor w')) + aborts_of x (calls (reactor w'))
                 = (if x \<in> set (scheduled w) then 1 else 0))"
  proof -
    from steps_finish [OF inv] obtain w' where w': "steps (finish w) w = Some w'"
        "scheduled w' = scheduled w" "pending_tasks (reactor w') = []" "tasks w' = []"
        "calls (reactor w') =
           calls (reactor w) @ map (\<lambda>x. Abort x ShutdownError) (pending_tasks (reactor w))
             @ map Run (tasks w)"
      by blast
    have "World_inv w'" using inv w'(1) by (rule steps_World_inv)
    from World_inv_count [OF this] w'(2-4)
    have "\<forall>x. runs_of x (calls (reactor w')) + aborts_of x (calls (reactor w'))
                 = (if x \<in> set (scheduled w) then 1 else 0)"
      by simp
    with w'(1,2,5) show ?thesis by blast
  qed
  have c4: "closing r1 \<longrightarrow>
         ScheduleReactorTask y r1 = r1\<lparr>calls := calls r1 @ [Abort y ShutdownError]\<rparr>"
    by (simp add: ScheduleReactorTask_def)
  have c5: "\<not> closing r2 \<longrightarrow>
         calls (AsyncHandler r2) = calls r2 @ map Run (pending_tasks r2)
         \<and> pending_tasks (AsyncHandler r2) = []"
    by (simp add: AsyncHandler_def DrainTaskQueue_def run_tasks_eq)
  have c6: "\<not> closing r3 \<longrightarrow>
         (\<exists>r'. Reactor_Shutdown r3 = Inr r' \<and> pending_tasks r' = []
               \<and> calls r' = calls r3 @ map (\<lambda>x. Abort x ShutdownError) (pending_tasks r3))"
    by (simp add: Reactor_Shutdown_def ReactorThread_Shutdown_def WakeThread_def abort_pending_eq)
  from c1 c2 c3 c4 c5 c6 show ?thesis by blast
qed

lemmas world_defs = World_init_def Reactor_init_def ScheduleReactorTask_def WakeThread_def
  DrainTaskQueue_def ReactorThread_Shutdown_def abort_front_def

lemma ShutdownInternal_init:
  "ShutdownInternal (ReactorThread_init keepalive now) = ReactorThread_init keepalive now"
  by (simp add: ShutdownInternal_def ReactorThread_init_def)

lemma ex_run_result:
  "steps ex_run (World_init 10 0) =
     Some \<lparr>reactor = \<lparr>closing = True, pending_tasks = [], async_pending = False,
                       calls = [Run 21, Abort 24 ShutdownError, Abort 23 ShutdownError, Run 22],
                       loop_broken = True, loop_thread = ReactorThread_init 10 0\<rparr>,
           loop_pc = LoopExited, tasks = [], shutdown_pc = ShutdownReturned,
           scheduled = [21, 22, 23, 24]\<rparr>"
  by (simp add: ex_run_def world_defs ShutdownInternal_init)

lemma ex_race_result:
  "steps ex_race (World_init 10 0) =
     Some \<lparr>reactor = \<lparr>closing = True, pending_tasks = [], async_pending = True,
                       calls = [Run 21],
                       loop_broken = False, loop_thread = ReactorThread_init 10 0\<rparr>,
           loop_pc = LoopRunning, tasks = [22], shutdown_pc = ShutdownReturned,
           scheduled = [21, 22]\<rparr>"
  by (simp add: ex_race_def world_defs)

text \<open>C1 on the example run: 21 and 22 are Run, 23 and 24 are Aborted, each once.\<close>

theorem no_task_leak_witness:
  "map_option scheduled (steps ex_run (World_init 10 0)) = Some [21, 22, 23, 24]
   \<and> map_option (calls \<circ> reactor) (steps ex_run (World_init 10 0)) =
       Some [Run 21, Abort 24 ShutdownError, Abort 23 ShutdownError, Run 22]
   \<and> map_option (pending_tasks \<circ> reactor) (steps ex_run (World_init 10 0)) = Some []
   \<and> map_option tasks (steps ex_run (World_init 10 0)) = Some []
   \<and> runs_of (22::nat) [Run 21, Abort 24 ShutdownError, Abort 23 ShutdownError, Run 22] = 1
   \<and> aborts_of (22::nat) [Run 21, Abort 24 ShutdownError, Abort 23 ShutdownError, Run 22] = 0
   \<and> runs_of (23::nat) [Run 21, Abort 24 ShutdownError, Abort 23 ShutdownError, Run 22] = 0
   \<and> aborts_of (23::nat) [Run 21, Abort 24 ShutdownError, Abort 23 ShutdownError, Run 22] = 1"
  using no_task_leak [of ex_run 10 0 "the (steps ex_run (World_init 10 0))"]
  by (simp add: ex_run_result runs_of_def aborts_of_def)

subsection \<open>After Shutdown has returned\<close>

text \<open>
  C2, as stated, fails: in the run \<open>ex_race\<close> the loop drains tasks 21 and 22 and runs 21;
  then Shutdown is called, finds nothing pending and returns; and then the loop, still in
  AsyncHandler, runs 22.
\<close>

theorem Run_after_Shutdown_returned:
  "map_option shutdown_pc (steps ex_race (World_init 10 0)) = Some ShutdownReturned
   \<and> map_option (calls \<circ> reactor) (steps ex_race (World_init 10 0)) = Some [Run 21]
   \<and> map_option (calls \<circ> reactor) (steps (ex_race @ [LoopRun]) (World_init 10 0)) =
       Some [Run 21, Run 22]"
  by (simp add: steps_append ex_race_result)

text \<open>
  C2, amended. On a Reactor whose \<open>closing\<close> is set, ScheduleReactorTask aborts its
  argument with the shutdown error (service unavailable, ESHUTDOWN, "reactor is shutting
  down") and queues nothing, DrainTaskQueue returns false and moves nothing, and
  AsyncHandler runs no task. In a world where Shutdown has returned, every step of any
  thread keeps \<open>closing\<close> set and \<open>pending_tasks\<close> empty, and it either leaves the loop's
  list alone and runs nothing, or it is the loop running the head of the list it drained
  before \<open>closing\<close> was set: no task enters that list any more. When the event loop
  invokes AsyncHandler with \<open>closing\<close> set, the loop thread leaves the event loop without
  an invocation, and it takes no step after that.
\<close>

theorem shutdown_safety:
  "(closing r \<longrightarrow>
      ScheduleReactorTask x r = r\<lparr>calls := calls r @ [Abort x ShutdownError]\<rparr>
      \<and> DrainTaskQueue ts r = (False, ts, r)
      \<and> calls (AsyncHandler r) = calls r
      \<and> pending_tasks (AsyncHandler r) = pending_tasks r)
   \<and> code ShutdownError = kServiceUnavailable
   \<and> posix_code ShutdownError = ESHUTDOWN
   \<and> message ShutdownError = ''reactor is shutting down''
   \<and> (steps as (World_init keepalive now) = Some w \<and> shutdown_pc w = ShutdownReturned
       \<and> step a w = Some w' \<longrightarrow>
        closing (reactor w) \<and> shutdown_pc w' = ShutdownReturned
        \<and> pending_tasks (reactor w') = []
        \<and> ((tasks w' = tasks w
             \<and> (calls (reactor w') = calls (reactor w)
                 \<or> (\<exists>y. a = Schedule y
                         \<and> calls (reactor w') = calls (reactor w) @ [Abort y ShutdownError])))
            \<or> (\<exists>y. a = LoopRun \<and> tasks w = y # tasks w'
                    \<and> calls (reactor w') = calls (reactor w) @ [Run y])))
   \<and> (closing (reactor v) \<and> step LoopWake v = Some v' \<longrightarrow>
        loop_pc v' = LoopExited \<and> calls (reactor v') = calls (reactor v))
   \<and> (loop_pc u = LoopExited \<longrightarrow>
        step LoopWake u = None \<and> step LoopDrain u = None \<and> step LoopRun u = None
        \<and> step LoopDone u = None)"
proof -
  have c1: "closing r \<longrightarrow>
      ScheduleReactorTask x r = r\<lparr>calls := calls r @ [Abort x ShutdownError]\<rparr>
      \<and> DrainTaskQueue ts r = (False, ts, r)
      \<and> calls (AsyncHandler r) = calls r
      \<and> pending_tasks (AsyncHandler r) = pending_tasks r"
    by (simp add: ScheduleReactorTask_def DrainTaskQueue_def AsyncHandler_def)
  have c2: "code ShutdownError = kServiceUnavailable \<and> posix_code ShutdownError = ESHUTDOWN
      \<and> message ShutdownError = ''reactor is shutting down''"
    by (simp add: ShutdownError_def ServiceUnavailable_def join_msg_def)
  have c3: "steps as (World_init keepalive now) = Some w \<and> shutdown_pc w = ShutdownReturned
       \<and> step a w = Some w' \<longrightarrow>
        closing (reactor w) \<and> shutdown_pc w' = ShutdownReturned
        \<and> pending_tasks (reactor w') = []
        \<and> ((tasks w' = tasks w
             \<and> (calls (reactor w') = calls (reactor w)
                 \<or> (\<exists>y. a = Schedule y
                         \<and> calls (reactor w') = calls (reactor w) @ [Abort y ShutdownError])))
            \<or> (\<exists>y. a = LoopRun \<and> tasks w = y # tasks w'
                    \<and> calls (reactor w') = calls (reactor w) @ [Run y]))"
  proof (intro impI, elim conjE)
    assume run: "steps as (World_init keepalive now) = Some w"
      and ret: "shutdown_pc w = ShutdownReturned" and st: "step a w = Some w'"
    have inv: "World_inv w" using World_inv_init run by (rule steps_World_inv)
    with ret have cl: "closing (reactor w)" and pe: "pending_tasks (reactor w) = []"
      by (simp_all add: World_inv_def)
    show "closing (reactor w) \<and> shutdown_pc w' = ShutdownReturned
        \<and> pending_tasks (reactor w') = []
        \<and> ((tasks w' = tasks w
             \<and> (calls (reactor w') = calls (reactor w)
                 \<or> (\<exists>y. a = Schedule y
                         \<and> calls (reactor w') = calls (reactor w) @ [Abort y ShutdownError])))
            \<or> (\<exists>y. a = LoopRun \<and> tasks w = y # tasks w'
                    \<and> calls (reactor w') = calls (reactor w) @ [Run y]))"
      using st ret cl pe
      by (cases a)
         (auto simp: ScheduleReactorTask_def DrainTaskQueue_def Let_def
            split: if_splits list.splits)
  qed
  have c4: "closing (reactor v) \<and> step LoopWake v = Some v' \<longrightarrow>
        loop_pc v' = LoopExited \<and> calls (reactor v') = calls (reactor v)"
    by (auto simp: Let_def split: if_splits)
  have c5: "loop_pc u = LoopExited \<longrightarrow>
        step LoopWake u = None \<and> step LoopDrain u = None \<and> step LoopRun u = None
        \<and> step LoopDone u = None"
    by simp
  from c1 c2 c3 c4 c5 show ?thesis by blast
qed

text \<open>C2 amended, on the run \<open>ex_race\<close> followed by the loop's next step, or by a Schedule.\<close>

theorem shutdown_safety_witness:
  "closing (ex_reactor\<lparr>closing := True\<rparr>)
   \<and> calls (ScheduleReactorTask 25 (ex_reactor\<lparr>closing := True\<rparr>)) = [Abort 25 ShutdownError]
   \<and> pending_tasks (ScheduleReactorTask 25 (ex_reactor\<lparr>closing := True\<rparr>)) = [21, 22]
   \<and> fst (DrainTaskQueue [] (ex_reactor\<lparr>closing := True\<rparr>)) = False
   \<and> map_option shutdown_pc (steps ex_race (World_init 10 0)) = Some ShutdownReturned
   \<and> map_option tasks (steps ex_race (World_init 10 0)) = Some [22]
   \<and> map_option tasks (steps (ex_race @ [LoopRun]) (World_init 10 0)) = Some []
   \<and> map_option (calls \<circ> reactor) (steps (ex_race @ [LoopRun]) (World_init 10 0)) =
       Some [Run 21, Run 22]
   \<and> map_option (calls \<circ> reactor) (steps (ex_race @ [Schedule 25]) (World_init 10 0)) =
       Some [Run 21, Abort 25 ShutdownError]
   \<and> map_option loop_pc (steps (ex_race @ [LoopRun, LoopDone, LoopWake]) (World_init 10 0)) =
       Some LoopExited
   \<and> map_option (calls \<circ> reactor)
        (steps (ex_race @ [LoopRun, LoopDone, LoopWake]) (World_init 10 0)) =
       Some [Run 21, Run 22]
   \<and> steps (ex_race @ [LoopRun, LoopDone, LoopWake, LoopRun]) (World_init 10 0) = None"
  using shutdown_safety [of "ex_reactor\<lparr>closing := True\<rparr>" 25 "[]" ex_race 10 0
      "the (steps ex_race (World_init 10 0))" LoopRun
      "the (steps (ex_race @ [LoopRun]) (World_init 10 0))"
      "the (steps (ex_race @ [LoopRun, LoopDone]) (World_init 10 0))"
      "the (steps (ex_race @ [LoopRun, LoopDone, LoopWake]) (World_init 10 0))"
      "the (steps (ex_race @ [LoopRun, LoopDone, LoopWake]) (World_init 10 0))"]
  by (simp add: steps_append ex_race_result ex_reactor_def Reactor_init_def
        ScheduleReactorTask_def DrainTaskQueue_def ShutdownInternal_init)

end
